theory Spec2Isabelle
  imports Main
begin

section \<open>Data model\<close>

text \<open>
  The client is a React application (\<^verbatim>\<open>src/App.tsx\<close>, \<^verbatim>\<open>src/components/Editor.tsx\<close>) on
  top of a realtime document store. A JavaScript \<^verbatim>\<open>Date\<close> is its time value, an integer
  number of milliseconds since the epoch; \<^verbatim>\<open>Date | null\<close> is an \<open>option\<close>. Strings are
  lists of 8-bit characters. The random \<^verbatim>\<open>uuidv4()\<close> identifiers of terminal lines are
  left out of the model; identifiers of documents are part of the input.
\<close>

type_synonym Date = int

datatype color = Default | Green | Red

type_synonym TerminalLine = "string \<times> color"

record LoginState =
  loggedIn :: bool
  roomId :: "string option"
  userName :: "string option"

record ChatMessage =
  msgId :: string
  sender :: string
  content :: string
  createdAt :: "Date option"
  seenBy :: "string list"
  seenAt :: "(string \<times> Date option) list"

text \<open>
  A field of a stored document as the snapshot callback sees it (\<^verbatim>\<open>data as any\<close>): absent
  (or a server timestamp that is still pending), a \<^verbatim>\<open>Date\<close>, a store timestamp with a
  \<^verbatim>\<open>toDate()\<close> method, or anything else.
\<close>

datatype FieldValue = Absent | JsDate Date | Timestamp Date | OtherValue

record MessageDoc =
  doc_id :: string
  doc_sender :: "string option"
  doc_content :: "string option"
  doc_createdAt :: FieldValue
  doc_seenBy :: "string list option"
  doc_seenAt :: "(string \<times> FieldValue) list option"

text \<open>\<^verbatim>\<open>toJsDate\<close> (App.tsx, 662-667).\<close>

fun toJsDate :: "FieldValue \<Rightarrow> Date option" where
  "toJsDate Absent = None"
| "toJsDate (JsDate d) = Some d"
| "toJsDate (Timestamp ms) = Some ms"
| "toJsDate OtherValue = None"

text \<open>Truthiness of a \<^verbatim>\<open>string | null\<close> value: null and the empty string are falsy.\<close>

fun truthy :: "string option \<Rightarrow> bool" where
  "truthy None = False"
| "truthy (Some s) = (s \<noteq> [])"

section \<open>Numbers and strings\<close>

text \<open>
  \<^verbatim>\<open>String(n)\<close> and template interpolation of an integer give its decimal digits;
  \<^verbatim>\<open>parseInt(s, 10)\<close> skips leading white space, reads an optional sign and the longest
  run of digits, and is \<^verbatim>\<open>NaN\<close> (here \<open>None\<close>) when there is no digit.
\<close>

definition digit_char :: "nat \<Rightarrow> char" where
  "digit_char d = char_of (48 + d)"

function decimal :: "nat \<Rightarrow> string" where
  "decimal n = (if n < 10 then [digit_char n] else decimal (n div 10) @ [digit_char (n mod 10)])"
  by pat_completeness auto
termination
  by (relation "measure id") auto

declare decimal.simps [simp del]

definition String_of_int :: "int \<Rightarrow> string" where
  "String_of_int i = (if i < 0 then CHR ''-'' # decimal (nat (- i)) else decimal (nat i))"

definition is_digit :: "char \<Rightarrow> bool" where
  "is_digit c = (48 \<le> (of_char c :: nat) \<and> (of_char c :: nat) \<le> 57)"

definition digit_val :: "char \<Rightarrow> nat" where
  "digit_val c = of_char c - 48"

text \<open>White space and line terminators of JavaScript among the 8-bit characters.\<close>

definition is_space :: "char \<Rightarrow> bool" where
  "is_space c = ((of_char c :: nat) \<in> {9, 10, 11, 12, 13, 32, 160})"

definition trim :: "string \<Rightarrow> string" where
  "trim s = rev (dropWhile is_space (rev (dropWhile is_space s)))"

definition digits_value :: "string \<Rightarrow> nat" where
  "digits_value ds = foldl (\<lambda>a c. 10 * a + digit_val c) 0 ds"

fun strip_sign :: "string \<Rightarrow> bool \<times> string" where
  "strip_sign [] = (False, [])"
| "strip_sign (c # cs) =
     (if c = CHR ''-'' then (True, cs)
      else if c = CHR ''+'' then (False, cs)
      else (False, c # cs))"

definition parseInt :: "string \<Rightarrow> int option" where
  "parseInt s =
     (case strip_sign (dropWhile is_space s) of
        (neg, body) \<Rightarrow>
          (let ds = takeWhile is_digit body in
           if ds = [] then None
           else Some (if neg then - int (digits_value ds) else int (digits_value ds))))"

section \<open>Local storage\<close>

text \<open>
  \<^verbatim>\<open>window.localStorage\<close>: every access is wrapped in \<^verbatim>\<open>try/catch\<close>, so a storage that
  throws (\<open>available = False\<close>) reads as nothing and ignores writes.
\<close>

record LocalStorage =
  available :: bool
  items :: "string \<Rightarrow> string option"

definition getItem :: "LocalStorage \<Rightarrow> string \<Rightarrow> string option" where
  "getItem ls k = (if available ls then items ls k else None)"

definition setItem :: "string \<Rightarrow> string \<Rightarrow> LocalStorage \<Rightarrow> LocalStorage" where
  "setItem k v ls = (if available ls then ls\<lparr>items := (items ls)(k \<mapsto> v)\<rparr> else ls)"

definition removeItem :: "string \<Rightarrow> LocalStorage \<Rightarrow> LocalStorage" where
  "removeItem k ls = (if available ls then ls\<lparr>items := (items ls)(k := None)\<rparr> else ls)"

text \<open>\<^verbatim>\<open>hideBeforeKey\<close> (App.tsx, 348-349).\<close>

definition hideBeforeKey :: "string \<Rightarrow> string \<Rightarrow> string" where
  "hideBeforeKey room user = ''stealth_hideBefore_'' @ room @ ''_'' @ user"

text \<open>The watermark as the snapshot callback reads it (App.tsx, 781-794).\<close>

definition readHideBefore :: "LocalStorage \<Rightarrow> string \<Rightarrow> string \<Rightarrow> Date option" where
  "readHideBefore ls room user =
     (case getItem ls (hideBeforeKey room user) of
        None \<Rightarrow> None
      | Some hbRaw \<Rightarrow> if hbRaw = [] then None else parseInt hbRaw)"

section \<open>Message snapshots\<close>

text \<open>
  The test \<^verbatim>\<open>hideBeforeTime && createdAt && createdAt <= hideBeforeTime\<close> of the snapshot
  callback (App.tsx, 801).
\<close>

fun hiddenBySnapshot :: "Date option \<Rightarrow> Date option \<Rightarrow> bool" where
  "hiddenBySnapshot (Some hideBeforeTime) (Some created) = (created \<le> hideBeforeTime)"
| "hiddenBySnapshot _ _ = False"

definition seenAtOf :: "(string \<times> FieldValue) list option \<Rightarrow> (string \<times> Date option) list" where
  "seenAtOf raw = (case raw of None \<Rightarrow> [] | Some es \<Rightarrow> map (\<lambda>(u, ts). (u, toJsDate ts)) es)"

definition toChatMessage :: "MessageDoc \<Rightarrow> ChatMessage" where
  "toChatMessage d =
     \<lparr> msgId = doc_id d,
       sender = (case doc_sender d of None \<Rightarrow> ''unknown'' | Some s \<Rightarrow> s),
       content = (case doc_content d of None \<Rightarrow> [] | Some c \<Rightarrow> c),
       createdAt = toJsDate (doc_createdAt d),
       seenBy = (case doc_seenBy d of None \<Rightarrow> [] | Some us \<Rightarrow> us),
       seenAt = seenAtOf (doc_seenAt d) \<rparr>"

text \<open>The \<^verbatim>\<open>forEach\<close> over \<^verbatim>\<open>snapshot.docs\<close> that builds \<^verbatim>\<open>docs\<close> (App.tsx, 796-819).\<close>

fun collectDocs :: "Date option \<Rightarrow> MessageDoc list \<Rightarrow> ChatMessage list" where
  "collectDocs hideBeforeTime [] = []"
| "collectDocs hideBeforeTime (docSnap # rest) =
     (if hiddenBySnapshot hideBeforeTime (toJsDate (doc_createdAt docSnap))
      then collectDocs hideBeforeTime rest
      else toChatMessage docSnap # collectDocs hideBeforeTime rest)"

text \<open>The unread filter of the first snapshot (App.tsx, 823-825).\<close>

definition unreadCount :: "string \<Rightarrow> ChatMessage list \<Rightarrow> nat" where
  "unreadCount user docs =
     length (filter (\<lambda>m. sender m \<noteq> user \<and> user \<notin> set (seenBy m)) docs)"

text \<open>The local filter of \<^verbatim>\<open>clear_local\<close> (App.tsx, 1388-1390).\<close>

fun keptByClear :: "Date \<Rightarrow> ChatMessage \<Rightarrow> bool" where
  "keptByClear nowMs m = (case createdAt m of None \<Rightarrow> True | Some t \<Rightarrow> nowMs \<le> t)"

section \<open>Application state\<close>

datatype StreamKind = MessagesStream | PresenceStream | RingsStream

text \<open>
  A listener registered with \<^verbatim>\<open>onSnapshot\<close>. The closure variables of the callback are
  its fields: the room and user it was created for and, for the message feed, the
  \<^verbatim>\<open>firstSnapshot\<close> flag (App.tsx, 778). The unsubscribe function returned by
  \<^verbatim>\<open>onSnapshot\<close> is the listener's index; calling it clears \<open>live\<close>, and the store
  delivers snapshots to live listeners only.
\<close>

record Listener =
  l_kind :: StreamKind
  l_room :: string
  l_user :: string
  firstSnapshot :: bool
  live :: bool

text \<open>
  The React state and refs of \<^verbatim>\<open>App\<close> that the modelled handlers read or write, the
  browser's local storage, the store's listeners, and the effects on the outside world:
  documents added to the message collection (\<open>remoteMessages\<close>), system notifications
  shown, and ring documents deleted. The content tree \<^verbatim>\<open>files\<close> is an input of the
  handlers that read it.
\<close>

record PresenceInfo =
  status :: string
  typing :: bool

record AppState =
  login :: LoginState
  panic :: bool
  chatFileId :: "string option"
  activeFileId :: "string option"
  messages :: "ChatMessage list"
  terminalLines :: "TerminalLine list"
  unsubscribeMessages :: "nat option"
  unsubscribePresence :: "nat option"
  unsubscribeRings :: "nat option"
  lastActivity :: Date
  lastHidden :: "Date option"
  tabVisible :: bool
  localStorage :: LocalStorage
  identityItem :: "(string \<times> string) option"
  listeners :: "Listener list"
  remoteMessages :: "(string \<times> MessageDoc) list"
  notifications :: "string list"
  ringDeletes :: "(string \<times> string) list"
  presenceMap :: "string \<Rightarrow> PresenceInfo option"
  onlineLog :: "string \<Rightarrow> Date option"

definition appendTerminalLine :: "string \<Rightarrow> color \<Rightarrow> AppState \<Rightarrow> AppState" where
  "appendTerminalLine txt c s = s\<lparr>terminalLines := terminalLines s @ [(txt, c)]\<rparr>"

section \<open>Subscriptions\<close>

definition onSnapshot :: "StreamKind \<Rightarrow> string \<Rightarrow> string \<Rightarrow> AppState \<Rightarrow> nat \<times> AppState" where
  "onSnapshot k room user s =
     (length (listeners s),
      s\<lparr>listeners := listeners s @
          [\<lparr>l_kind = k, l_room = room, l_user = user, firstSnapshot = True, live = True\<rparr>]\<rparr>)"

definition unsubscribe :: "nat \<Rightarrow> AppState \<Rightarrow> AppState" where
  "unsubscribe i s =
     (if i < length (listeners s)
      then s\<lparr>listeners := (listeners s)[i := (listeners s ! i)\<lparr>live := False\<rparr>]\<rparr>
      else s)"

text \<open>\<^verbatim>\<open>subscribeToMessages\<close> (App.tsx, 772-838), without the callback body.\<close>

definition subscribeToMessages :: "string \<Rightarrow> string \<Rightarrow> AppState \<Rightarrow> AppState" where
  "subscribeToMessages room user s =
     (let s1 = (case unsubscribeMessages s of None \<Rightarrow> s | Some u \<Rightarrow> unsubscribe u s);
          (unsub, s2) = onSnapshot MessagesStream room user s1
      in s2\<lparr>unsubscribeMessages := Some unsub\<rparr>)"

text \<open>\<^verbatim>\<open>subscribeToPresence\<close> (App.tsx, 840-883), without the callback body.\<close>

definition subscribeToPresence :: "string \<Rightarrow> string \<Rightarrow> AppState \<Rightarrow> AppState" where
  "subscribeToPresence room user s =
     (let s1 = (case unsubscribePresence s of None \<Rightarrow> s | Some u \<Rightarrow> unsubscribe u s);
          (unsub, s2) = onSnapshot PresenceStream room user s1
      in s2\<lparr>unsubscribePresence := Some unsub\<rparr>)"

text \<open>\<^verbatim>\<open>subscribeToRings\<close> (App.tsx, 889-964), without the callback body.\<close>

definition subscribeToRings :: "string \<Rightarrow> string \<Rightarrow> AppState \<Rightarrow> AppState" where
  "subscribeToRings room user s =
     (let s1 = (case unsubscribeRings s of
                  None \<Rightarrow> s
                | Some u \<Rightarrow> (unsubscribe u s)\<lparr>unsubscribeRings := None\<rparr>);
          (unsub, s2) = onSnapshot RingsStream room user s1
      in s2\<lparr>unsubscribeRings := Some unsub\<rparr>)"

section \<open>The message feed callback\<close>

definition summaryLine :: "nat \<Rightarrow> TerminalLine" where
  "summaryLine unread = (''ncp summary: new '' @ decimal unread @ '' message(s)'', Green)"

text \<open>The callback given to \<^verbatim>\<open>onSnapshot\<close> by \<^verbatim>\<open>subscribeToMessages\<close> (App.tsx, 780-835).\<close>

definition messagesCallback :: "nat \<Rightarrow> MessageDoc list \<Rightarrow> AppState \<Rightarrow> AppState" where
  "messagesCallback i snapshot s =
     (let l = listeners s ! i;
          hideBeforeTime = readHideBefore (localStorage s) (l_room l) (l_user l);
          docs = collectDocs hideBeforeTime snapshot;
          s1 = (if firstSnapshot l
                then (let s' = s\<lparr>listeners := (listeners s)[i := l\<lparr>firstSnapshot := False\<rparr>]\<rparr>;
                          unread = unreadCount (l_user l) docs
                      in if 0 < unread
                         then s'\<lparr>terminalLines := terminalLines s' @ [summaryLine unread]\<rparr>
                         else s')
                else s)
      in s1\<lparr>messages := docs\<rparr>)"

text \<open>The store delivers a snapshot of the message collection to listener \<open>i\<close>.\<close>

definition deliverMessages :: "nat \<Rightarrow> MessageDoc list \<Rightarrow> AppState \<Rightarrow> AppState" where
  "deliverMessages i snapshot s =
     (if i < length (listeners s) \<and> live (listeners s ! i)
         \<and> l_kind (listeners s ! i) = MessagesStream
      then messagesCallback i snapshot s
      else s)"

text \<open>The \<^verbatim>\<open>clear_local\<close> branch of \<^verbatim>\<open>handleCommand\<close> (App.tsx, 1374-1396).\<close>

definition sessionOf :: "LoginState \<Rightarrow> (string \<times> string) option" where
  "sessionOf l =
     (if loggedIn l \<and> truthy (roomId l) \<and> truthy (userName l)
      then Some (the (roomId l), the (userName l))
      else None)"

definition clear_local :: "Date \<Rightarrow> AppState \<Rightarrow> AppState" where
  "clear_local nowMs s =
     (case sessionOf (login s) of
        None \<Rightarrow> appendTerminalLine ''error: not logged in'' Red s
      | Some (room, user) \<Rightarrow>
          appendTerminalLine ''local chat history cleared (server copy still exists)'' Green
            (s\<lparr>localStorage := setItem (hideBeforeKey room user) (String_of_int nowMs) (localStorage s),
               messages := filter (keptByClear nowMs) (messages s)\<rparr>))"

section \<open>Session commands and the idle poll\<close>

text \<open>
  The content tree, as far as \<^verbatim>\<open>findFirstSafeFile\<close> reads it.
\<close>

datatype NodeType = File | Folder

datatype FileNode =
  FileNode (node_id: string) (node_type: NodeType) (isChatFile: bool)
    (children: "FileNode list option")

text \<open>\<^verbatim>\<open>findFirstSafeFile\<close> (App.tsx, 441-452).\<close>

fun findFirstSafeFile :: "FileNode list \<Rightarrow> string option" where
  "findFirstSafeFile [] = None"
| "findFirstSafeFile (FileNode i t chat ch # rest) =
     (if t = File \<and> \<not> chat then Some i
      else (case ch of
              None \<Rightarrow> findFirstSafeFile rest
            | Some cs \<Rightarrow>
                (if truthy (findFirstSafeFile cs) then findFirstSafeFile cs
                 else findFirstSafeFile rest)))"

text \<open>\<^verbatim>\<open>hideChatAndSwitch\<close> (App.tsx, 483-492).\<close>

definition hideChatAndSwitch :: "FileNode list \<Rightarrow> AppState \<Rightarrow> AppState" where
  "hideChatAndSwitch files s =
     s\<lparr>panic := True,
       activeFileId :=
         (if \<not> truthy (chatFileId s) then activeFileId s
          else if activeFileId s \<noteq> chatFileId s then activeFileId s
          else findFirstSafeFile files)\<rparr>"

text \<open>
  \<^verbatim>\<open>ensureChatFile\<close> (App.tsx, 574-660) as far as the chat file's identifier goes; \<open>newId\<close>
  is the \<^verbatim>\<open>uuidv4()\<close> it draws. The insertion of the file into the content tree is not
  modelled.
\<close>

definition ensureChatFile :: "string \<Rightarrow> AppState \<Rightarrow> AppState" where
  "ensureChatFile newId s =
     (if truthy (chatFileId s) then s
      else if newId \<noteq> [] then s\<lparr>chatFileId := Some newId\<rparr>
      else s)"

definition storeIdentity :: "string \<Rightarrow> string \<Rightarrow> AppState \<Rightarrow> AppState" where
  "storeIdentity room user s =
     (if available (localStorage s) then s\<lparr>identityItem := Some (room, user)\<rparr> else s)"

definition removeIdentity :: "AppState \<Rightarrow> AppState" where
  "removeIdentity s = (if available (localStorage s) then s\<lparr>identityItem := None\<rparr> else s)"

definition readIdentity :: "AppState \<Rightarrow> (string \<times> string) option" where
  "readIdentity s = (if available (localStorage s) then identityItem s else None)"

text \<open>
  What the \<^verbatim>\<open>login\<close> command and the auto-login effect do once room and user are known
  (App.tsx, 1291-1316 and 1094-1108). Requests for notification permission and writes of
  presence documents are not modelled.
\<close>

definition attachAll :: "string \<Rightarrow> string \<Rightarrow> string \<Rightarrow> AppState \<Rightarrow> AppState" where
  "attachAll room user newId s =
     subscribeToRings room user
       (subscribeToPresence room user
         (subscribeToMessages room user
           (ensureChatFile newId s)))"

text \<open>
  How \<^verbatim>\<open>handleCommand\<close> reads its input (App.tsx, 1214-1219): the trimmed input is
  split at every blank, so two blanks in a row give an empty word; the first word is the
  command, the others are \<^verbatim>\<open>rest\<close>.
\<close>

fun splitBlank :: "string \<Rightarrow> string list" where
  "splitBlank [] = [[]]"
| "splitBlank (c # cs) =
     (if c = CHR '' '' then [] # splitBlank cs
      else (case splitBlank cs of [] \<Rightarrow> [[c]] | w # ws \<Rightarrow> (c # w) # ws))"

definition commandWords :: "string \<Rightarrow> string \<times> string list" where
  "commandWords raw = (case splitBlank (trim raw) of [] \<Rightarrow> ([], []) | cmd # rest \<Rightarrow> (cmd, rest))"

text \<open>The \<^verbatim>\<open>login\<close> branch of \<^verbatim>\<open>handleCommand\<close> (App.tsx, 1278-1318).\<close>

definition cmd_login :: "string list \<Rightarrow> string \<Rightarrow> AppState \<Rightarrow> AppState" where
  "cmd_login rest newId s =
     (if loggedIn (login s)
      then appendTerminalLine ''already logged in; use logout first'' Red s
      else (case rest of
              [] \<Rightarrow> appendTerminalLine ''usage: login <room_id> [user_name]'' Red s
            | room # args \<Rightarrow>
                (if room = []
                 then appendTerminalLine ''usage: login <room_id> [user_name]'' Red s
                 else (let user = (case args of [] \<Rightarrow> ''dev'' | u # _ \<Rightarrow> u) in
                       attachAll room user newId
                         (storeIdentity room user
                           (appendTerminalLine
                              (''logged into room '' @ room @ '' as '' @ user) Green
                              (s\<lparr>login := \<lparr>loggedIn = True, roomId = Some room,
                                            userName = Some user\<rparr>\<rparr>)))))))"

text \<open>The auto-login effect (App.tsx, 1082-1112).\<close>

definition autoLogin :: "string \<Rightarrow> AppState \<Rightarrow> AppState" where
  "autoLogin newId s =
     (if loggedIn (login s) then s
      else (case readIdentity s of
              None \<Rightarrow> s
            | Some (room, user) \<Rightarrow>
                (if room = [] \<or> user = [] then s
                 else attachAll room user newId
                        (appendTerminalLine
                           (''auto-login to room '' @ room @ '' as '' @ user) Green
                           (s\<lparr>login := \<lparr>loggedIn = True, roomId = Some room,
                                         userName = Some user\<rparr>\<rparr>)))))"

text \<open>The \<^verbatim>\<open>logout\<close> branch of \<^verbatim>\<open>handleCommand\<close> (App.tsx, 1346-1372).\<close>

definition cmd_logout :: "AppState \<Rightarrow> AppState" where
  "cmd_logout s =
     (let s1 = s\<lparr>login := \<lparr>loggedIn = False, roomId = None, userName = None\<rparr>,
                 panic := True\<rparr>;
          s2 = (case unsubscribeMessages s of None \<Rightarrow> s1 | Some u \<Rightarrow> unsubscribe u s1);
          s3 = (case unsubscribePresence s of None \<Rightarrow> s2 | Some u \<Rightarrow> unsubscribe u s2)
      in appendTerminalLine ''logged out. chat file hidden'' Green (removeIdentity s3))"

text \<open>
  The \<^verbatim>\<open>ncp run\<close> branch of \<^verbatim>\<open>handleCommand\<close> (App.tsx, 1320-1338); the list of open
  tabs is not modelled.
\<close>

definition cmd_ncp_run :: "AppState \<Rightarrow> AppState" where
  "cmd_ncp_run s =
     (if \<not> loggedIn (login s) then appendTerminalLine ''error: not logged in'' Red s
      else if truthy (chatFileId s)
      then appendTerminalLine ''running ncp... opening job file'' Green
             (s\<lparr>panic := False, activeFileId := chatFileId s\<rparr>)
      else appendTerminalLine ''chat file not initialized'' Red s)"

text \<open>The \<^verbatim>\<open>hide_chat\<close> branch of \<^verbatim>\<open>handleCommand\<close> (App.tsx, 1340-1344).\<close>

definition cmd_hide_chat :: "FileNode list \<Rightarrow> AppState \<Rightarrow> AppState" where
  "cmd_hide_chat files s = appendTerminalLine ''chat file hidden'' Green (hideChatAndSwitch files s)"

text \<open>The activity and visibility handlers (App.tsx, 516-545).\<close>

definition markActivity :: "Date \<Rightarrow> AppState \<Rightarrow> AppState" where
  "markActivity now s = s\<lparr>lastActivity := now\<rparr>"

definition visHandler :: "bool \<Rightarrow> Date \<Rightarrow> AppState \<Rightarrow> AppState" where
  "visHandler visible now s =
     s\<lparr>tabVisible := visible, lastHidden := (if visible then None else Some now)\<rparr>"

definition IDLE_MS :: int where
  "IDLE_MS = 5 * 60 * 1000"

definition CHECK_MS :: int where
  "CHECK_MS = 30 * 1000"

text \<open>
  One run of the interval callback of the idle poll (App.tsx, 551-563), with \<open>now\<close> the
  value of \<^verbatim>\<open>Date.now()\<close> it reads.
\<close>

definition idleTooLong :: "Date \<Rightarrow> AppState \<Rightarrow> bool" where
  "idleTooLong now s = (IDLE_MS \<le> now - lastActivity s)"

definition hiddenTooLong :: "Date \<Rightarrow> AppState \<Rightarrow> bool" where
  "hiddenTooLong now s = (case lastHidden s of None \<Rightarrow> False | Some h \<Rightarrow> IDLE_MS \<le> now - h)"

definition pollTick :: "FileNode list \<Rightarrow> Date \<Rightarrow> AppState \<Rightarrow> AppState" where
  "pollTick files now s =
     (if \<not> loggedIn (login s) \<or> \<not> truthy (chatFileId s) then s
      else if (idleTooLong now s \<or> hiddenTooLong now s) \<and> \<not> panic s
      then hideChatAndSwitch files s
      else s)"

text \<open>The effect that clears the focus of a hidden chat file (App.tsx, 568-572).\<close>

definition panicFocusEffect :: "AppState \<Rightarrow> AppState" where
  "panicFocusEffect s =
     (if panic s \<and> activeFileId s = chatFileId s then s\<lparr>activeFileId := None\<rparr> else s)"

section \<open>Sending a message\<close>

text \<open>
  The answer of the store to \<^verbatim>\<open>addDoc\<close>: the new document's identifier, or a rejection
  with a \<^verbatim>\<open>FirebaseError\<close> code or with some other error. A promise of
  \<^verbatim>\<open>sendMessage\<close> is fulfilled or rejected accordingly.
\<close>

datatype AddResult = AddOk string | AddFirebaseError string | AddOtherError string

datatype Settled = Fulfilled | RejectedFirebase string | RejectedOther string

text \<open>
  \<^verbatim>\<open>sendMessage\<close> (App.tsx, 1157-1175). Both \<^verbatim>\<open>serverTimestamp()\<close> fields of the write
  are resolved by the store to the same \<open>serverTime\<close>.
\<close>

definition newMessageDoc :: "string \<Rightarrow> string \<Rightarrow> string \<Rightarrow> Date \<Rightarrow> MessageDoc" where
  "newMessageDoc newId user trimmed serverTime =
     \<lparr> doc_id = newId,
       doc_sender = Some user,
       doc_content = Some trimmed,
       doc_createdAt = Timestamp serverTime,
       doc_seenBy = Some [user],
       doc_seenAt = Some [(user, Timestamp serverTime)] \<rparr>"

definition sendMessage :: "string \<Rightarrow> Date \<Rightarrow> AddResult \<Rightarrow> AppState \<Rightarrow> Settled \<times> AppState" where
  "sendMessage txt serverTime res s =
     (case sessionOf (login s) of
        None \<Rightarrow> (Fulfilled, appendTerminalLine ''error: not logged in'' Red s)
      | Some (room, user) \<Rightarrow>
          (let trimmed = trim txt in
           if trimmed = [] then (Fulfilled, s)
           else (case res of
                   AddOk newId \<Rightarrow>
                     (Fulfilled,
                      s\<lparr>remoteMessages := remoteMessages s @
                          [(room, newMessageDoc newId user trimmed serverTime)]\<rparr>)
                 | AddFirebaseError code \<Rightarrow> (RejectedFirebase code, s)
                 | AddOtherError e \<Rightarrow> (RejectedOther e, s))))"

text \<open>\<^verbatim>\<open>handleSendChat\<close> (App.tsx, 1177-1189).\<close>

definition handleSendChat :: "string \<Rightarrow> Date \<Rightarrow> AddResult \<Rightarrow> AppState \<Rightarrow> AppState" where
  "handleSendChat txt serverTime res s =
     (case sendMessage txt serverTime res s of
        (Fulfilled, s') \<Rightarrow> appendTerminalLine ''message sent'' Green s'
      | (RejectedFirebase code, s') \<Rightarrow> appendTerminalLine (''firebase error: '' @ code) Red s'
      | (RejectedOther e, s') \<Rightarrow> appendTerminalLine (''error: '' @ e) Red s')"

section \<open>Ring events\<close>

datatype ChangeType = Added | Modified | Removed

record RingDoc =
  ring_id :: string
  ring_sender :: "string option"
  ring_createdAt :: FieldValue

text \<open>
  The browser's \<^verbatim>\<open>Notification\<close> interface when a ring is handled: not defined, defined
  without granted permission, granted, or granted with a constructor that throws.
\<close>

datatype NotificationApi =
  NotificationUndefined | PermissionNotGranted | PermissionGranted | ConstructorThrows

definition deleteRing :: "string \<Rightarrow> string \<Rightarrow> AppState \<Rightarrow> AppState" where
  "deleteRing room rid s = s\<lparr>ringDeletes := ringDeletes s @ [(room, rid)]\<rparr>"

definition ringAlertText :: string where
  "ringAlertText = ''Check out this new version of visual studio code''"

text \<open>The \<^verbatim>\<open>try/catch\<close> that shows the notification (App.tsx, 932-950).\<close>

definition ringNotify :: "NotificationApi \<Rightarrow> string \<Rightarrow> AppState \<Rightarrow> AppState" where
  "ringNotify api sndr s =
     (if api = PermissionGranted
      then s\<lparr>notifications := notifications s @ [ringAlertText]\<rparr>
      else appendTerminalLine (''ring: '' @ sndr @ '' triggered a notification'') Green s)"

text \<open>
  The body of the \<^verbatim>\<open>docChanges().forEach\<close> of the ring listener (App.tsx, 904-958);
  \<open>now\<close> is the \<^verbatim>\<open>Date.now()\<close> read while the change is handled.
\<close>

definition onRingChange ::
  "string \<Rightarrow> string \<Rightarrow> NotificationApi \<Rightarrow> Date \<times> ChangeType \<times> RingDoc \<Rightarrow> AppState \<Rightarrow> AppState" where
  "onRingChange room currentUser api change s =
     (case change of (now, ty, d) \<Rightarrow>
        if ty \<noteq> Added then s
        else if \<not> truthy (ring_sender d) \<or> ring_sender d = Some currentUser
        then deleteRing room (ring_id d) s
        else if (case toJsDate (ring_createdAt d) of
                   None \<Rightarrow> False
                 | Some created \<Rightarrow> 5000 < now - created)
        then deleteRing room (ring_id d) s
        else deleteRing room (ring_id d)
               (appendTerminalLine (''ring received from '' @ the (ring_sender d)) Default
                 (ringNotify api (the (ring_sender d)) s)))"

definition ringsCallback ::
  "nat \<Rightarrow> NotificationApi \<Rightarrow> (Date \<times> ChangeType \<times> RingDoc) list \<Rightarrow> AppState \<Rightarrow> AppState" where
  "ringsCallback i api changes s =
     foldl (\<lambda>st change.
              onRingChange (l_room (listeners s ! i)) (l_user (listeners s ! i)) api change st)
       s changes"

definition deliverRings ::
  "nat \<Rightarrow> NotificationApi \<Rightarrow> (Date \<times> ChangeType \<times> RingDoc) list \<Rightarrow> AppState \<Rightarrow> AppState" where
  "deliverRings i api changes s =
     (if i < length (listeners s) \<and> live (listeners s ! i)
         \<and> l_kind (listeners s ! i) = RingsStream
      then ringsCallback i api changes s
      else s)"

section \<open>Presence snapshots\<close>

record PresenceDoc =
  pdoc_id :: string
  pdoc_userName :: "string option"
  pdoc_status :: "string option"
  pdoc_online :: bool
  pdoc_typing :: bool

text \<open>
  The body of the \<^verbatim>\<open>forEach\<close> of the presence listener (App.tsx, 850-876); \<open>prev\<close> is the
  presence map before the snapshot.
\<close>

definition onPresenceDoc ::
  "string \<Rightarrow> Date \<Rightarrow> (string \<Rightarrow> PresenceInfo option) \<Rightarrow> PresenceDoc \<Rightarrow> AppState \<Rightarrow> AppState" where
  "onPresenceDoc currentUser now prev d s =
     (let name = (case pdoc_userName d of None \<Rightarrow> pdoc_id d | Some n \<Rightarrow> n);
          st = (case pdoc_status d of
                  Some v \<Rightarrow> v
                | None \<Rightarrow> if pdoc_online d then ''online'' else ''offline'');
          prevStatus = (case prev name of None \<Rightarrow> ''offline'' | Some info \<Rightarrow> status info);
          s1 = (if name \<noteq> currentUser \<and> st \<noteq> prevStatus
                then (if st = ''online''
                      then (let lastLog = (case onlineLog s name of None \<Rightarrow> 0 | Some t \<Rightarrow> t) in
                            if 2000 < now - lastLog
                            then (appendTerminalLine (''user '' @ name @ '' online'') Green s)
                                   \<lparr>onlineLog := (onlineLog s)(name \<mapsto> now)\<rparr>
                            else s)
                      else if st = ''away''
                      then appendTerminalLine (''user '' @ name @ '' away'') Default s
                      else if st = ''offline''
                      then appendTerminalLine (''user '' @ name @ '' offline'') Default s
                      else s)
                else s)
      in s1\<lparr>presenceMap := (presenceMap s1)(name \<mapsto> \<lparr>status = st, typing = pdoc_typing d\<rparr>)\<rparr>)"

definition presenceCallback :: "nat \<Rightarrow> Date \<Rightarrow> PresenceDoc list \<Rightarrow> AppState \<Rightarrow> AppState" where
  "presenceCallback i now docs s =
     foldl (\<lambda>st d. onPresenceDoc (l_user (listeners s ! i)) now (presenceMap s) d st) s docs"

definition deliverPresence :: "nat \<Rightarrow> Date \<Rightarrow> PresenceDoc list \<Rightarrow> AppState \<Rightarrow> AppState" where
  "deliverPresence i now docs s =
     (if i < length (listeners s) \<and> live (listeners s ! i)
         \<and> l_kind (listeners s ! i) = PresenceStream
      then presenceCallback i now docs s
      else s)"

section \<open>The application as a transition system\<close>

text \<open>
  The handlers run one at a time, each to completion on the state the previous one left:
  a command typed into the terminal, the auto-login effect, the keyboard chord, an
  activity or visibility event, a tick of the idle poll, and the delivery of a snapshot
  to a listener.
\<close>

datatype Event =
    CmdLogin "string list" string
  | AutoLogin string
  | CmdLogout
  | CmdNcpRun
  | CmdHideChat "FileNode list"
  | KeyChord "FileNode list"
  | CmdClearLocal Date
  | SendChat string Date AddResult
  | Activity Date
  | Visibility bool Date
  | PollTick "FileNode list" Date
  | MessagesSnapshot nat "MessageDoc list"
  | PresenceSnapshot nat Date "PresenceDoc list"
  | RingsSnapshot nat NotificationApi "(Date \<times> ChangeType \<times> RingDoc) list"

fun handle :: "Event \<Rightarrow> AppState \<Rightarrow> AppState" where
  "handle (CmdLogin rest newId) s = cmd_login rest newId s"
| "handle (AutoLogin newId) s = autoLogin newId s"
| "handle CmdLogout s = cmd_logout s"
| "handle CmdNcpRun s = cmd_ncp_run s"
| "handle (CmdHideChat files) s = cmd_hide_chat files s"
| "handle (KeyChord files) s = hideChatAndSwitch files s"
| "handle (CmdClearLocal nowMs) s = clear_local nowMs s"
| "handle (SendChat txt serverTime res) s = handleSendChat txt serverTime res s"
| "handle (Activity now) s = markActivity now s"
| "handle (Visibility visible now) s = visHandler visible now s"
| "handle (PollTick files now) s = pollTick files now s"
| "handle (MessagesSnapshot i snapshot) s = deliverMessages i snapshot s"
| "handle (PresenceSnapshot i now docs) s = deliverPresence i now docs s"
| "handle (RingsSnapshot i api changes) s = deliverRings i api changes s"

definition step :: "Event \<Rightarrow> AppState \<Rightarrow> AppState" where
  "step e s = panicFocusEffect (handle e s)"

definition run :: "Event list \<Rightarrow> AppState \<Rightarrow> AppState" where
  "run es s = foldl (\<lambda>st e. step e st) s es"

text \<open>
  The state of a freshly mounted \<^verbatim>\<open>App\<close> (App.tsx, 352-428): what the browser has
  persisted, the terminal's initial lines and the time of mounting are inputs.
\<close>

definition initialState ::
  "LocalStorage \<Rightarrow> (string \<times> string) option \<Rightarrow> TerminalLine list \<Rightarrow> Date \<Rightarrow> AppState" where
  "initialState ls ident lines0 t0 =
     \<lparr> login = \<lparr>loggedIn = False, roomId = None, userName = None\<rparr>,
       panic = False,
       chatFileId = None,
       activeFileId = None,
       messages = [],
       terminalLines = lines0,
       unsubscribeMessages = None,
       unsubscribePresence = None,
       unsubscribeRings = None,
       lastActivity = t0,
       lastHidden = None,
       tabVisible = True,
       localStorage = ls,
       identityItem = ident,
       listeners = [],
       remoteMessages = [],
       notifications = [],
       ringDeletes = [],
       presenceMap = Map.empty,
       onlineLog = Map.empty \<rparr>"

section \<open>The transcript projection\<close>

text \<open>
  The calendar fields of a \<^verbatim>\<open>Date\<close> in the browser's time zone, the current time read
  by \<^verbatim>\<open>new Date()\<close>, and the text put between the date and the time of a label (a
  bullet outside the 8-bit characters) are inputs of the projection.
\<close>

record Clock =
  getFullYear :: "Date \<Rightarrow> int"
  getMonth :: "Date \<Rightarrow> nat"
  getDate :: "Date \<Rightarrow> nat"
  getHours :: "Date \<Rightarrow> nat"
  getMinutes :: "Date \<Rightarrow> nat"
  today :: Date
  bullet :: string

definition months :: "string list" where
  "months = [''Jan'', ''Feb'', ''Mar'', ''Apr'', ''May'', ''Jun'',
             ''Jul'', ''Aug'', ''Sep'', ''Oct'', ''Nov'', ''Dec'']"

text \<open>\<^verbatim>\<open>formatTime\<close> (Editor.tsx, 84-117).\<close>

definition formatTime :: "Clock \<Rightarrow> Date option \<Rightarrow> string option" where
  "formatTime ck dt =
     (case dt of
        None \<Rightarrow> None
      | Some d \<Rightarrow>
          (let now = today ck;
               isToday = (getFullYear ck d = getFullYear ck now
                          \<and> getMonth ck d = getMonth ck now
                          \<and> getDate ck d = getDate ck now);
               hours = getHours ck d;
               minutes = getMinutes ck d;
               ampm = (if 12 \<le> hours then ''PM'' else ''AM'');
               hour12 = (if hours mod 12 = 0 then 12 else hours mod 12);
               mm = (if minutes < 10 then ''0'' @ decimal minutes else decimal minutes);
               timePart = decimal hour12 @ '':'' @ mm @ '' '' @ ampm;
               monthName = (if getMonth ck d < length months then months ! getMonth ck d
                            else ''undefined'');
               datePart = decimal (getDate ck d) @ '' '' @ monthName
           in Some (if isToday then timePart
                    else datePart @ '' '' @ bullet ck @ '' '' @ timePart)))"

text \<open>\<^verbatim>\<open>formatTimeSeparator\<close> (Editor.tsx, 119-123).\<close>

definition formatTimeSeparator :: "Clock \<Rightarrow> Date \<Rightarrow> string" where
  "formatTimeSeparator ck d = (case formatTime ck (Some d) of None \<Rightarrow> [] | Some l \<Rightarrow> l)"

text \<open>\<^verbatim>\<open>isOwn\<close> and \<^verbatim>\<open>buildMarker\<close> (Editor.tsx, 204-217).\<close>

definition isOwn :: "string option \<Rightarrow> ChatMessage \<Rightarrow> bool" where
  "isOwn currentUser m = (Some (sender m) = currentUser)"

definition buildMarker :: "string option \<Rightarrow> ChatMessage \<Rightarrow> string" where
  "buildMarker currentUser m =
     (if \<not> truthy currentUser then ''#''
      else if isOwn currentUser m
      then (let seenByOthers = list_ex (\<lambda>u. Some u \<noteq> currentUser) (seenBy m) in
            if seenByOthers then ''##'' else ''#'')
      else (let seenHere = list_ex (\<lambda>u. Some u = currentUser) (seenBy m) in
            if seenHere then ''##'' else ''#''))"

text \<open>
  The marker of the chat-file projection effect (App.tsx, 733-744), where the viewer is
  \<^verbatim>\<open>login.userName ?? ""\<close>.
\<close>

definition projectionMarker :: "string option \<Rightarrow> ChatMessage \<Rightarrow> string" where
  "projectionMarker loginUserName m =
     (let currentUser = (case loginUserName of None \<Rightarrow> [] | Some u \<Rightarrow> u) in
      if currentUser = [] then ''#''
      else if sender m = currentUser
      then (if list_ex (\<lambda>u. u \<noteq> currentUser) (seenBy m) then ''##'' else ''#'')
      else (if list_ex (\<lambda>u. u = currentUser) (seenBy m) then ''##'' else ''#''))"

text \<open>\<^verbatim>\<open>buildHoverText\<close> (Editor.tsx, 219-252).\<close>

definition latestOf :: "Date list \<Rightarrow> Date option" where
  "latestOf dates = (if dates = [] then None else Some (last (sort dates)))"

definition readTime :: "string option \<Rightarrow> ChatMessage \<Rightarrow> Date option" where
  "readTime currentUser m =
     (if \<not> truthy currentUser then None
      else if isOwn currentUser m
      then (let others = filter (\<lambda>(user, t). Some user \<noteq> currentUser) (seenAt m) in
            if others \<noteq> [] then latestOf (concat (map (\<lambda>(user, t). case t of None \<Rightarrow> [] | Some d \<Rightarrow> [d]) others))
            else None)
      else (case map_of (seenAt m) (the currentUser) of
              Some (Some t) \<Rightarrow> Some t
            | _ \<Rightarrow> None))"

definition buildHoverText :: "Clock \<Rightarrow> string option \<Rightarrow> ChatMessage \<Rightarrow> string" where
  "buildHoverText ck currentUser m =
     (let sent = formatTime ck (createdAt m);
          read = formatTime ck (readTime currentUser m)
      in if \<not> truthy sent \<and> \<not> truthy read then []
         else if truthy sent \<and> \<not> truthy read then ''message sent on '' @ the sent
         else if \<not> truthy sent \<and> truthy read then ''message read on '' @ the read
         else ''message sent on '' @ the sent @ [CHR 0x0A] @ ''message read on '' @ the read)"

text \<open>The text of a message line (Editor.tsx, 290-292).\<close>

definition escapeQuotes :: "string \<Rightarrow> string" where
  "escapeQuotes c = concat (map (\<lambda>ch. if ch = CHR 0x22 then [CHR 0x5C, CHR 0x22] else [ch]) c)"

definition lineText :: "string \<Rightarrow> ChatMessage \<Rightarrow> string" where
  "lineText marker m =
     ''// '' @ marker @ sender m @ '' { '' @ [CHR 0x22] @ escapeQuotes (content m) @ [CHR 0x22] @ '' }''"

text \<open>
  A rendered line: a time separator (its React key and text) or a message line (its key,
  text, hover text and reply indicator).
\<close>

datatype RenderedLine =
    TimestampLine string string
  | ChatLine string string string "string option"

definition HOUR_MS :: int where
  "HOUR_MS = 60 * 60 * 1000"

text \<open>The test \<^verbatim>\<open>!lastTime || created.getTime() - lastTime.getTime() >= HOUR_MS\<close>.\<close>

fun separatorDue :: "Date option \<Rightarrow> Date \<Rightarrow> bool" where
  "separatorDue None created = True"
| "separatorDue (Some lastTime) created = (HOUR_MS \<le> created - lastTime)"

definition timestampLine :: "Clock \<Rightarrow> ChatMessage \<Rightarrow> Date \<Rightarrow> RenderedLine" where
  "timestampLine ck m created =
     TimestampLine (''ts-'' @ msgId m) (''// --- '' @ formatTimeSeparator ck created @ '' ---'')"

definition chatLine :: "Clock \<Rightarrow> string option \<Rightarrow> ChatMessage option \<Rightarrow> ChatMessage \<Rightarrow> RenderedLine" where
  "chatLine ck currentUser replyTarget m =
     ChatLine (msgId m) (lineText (buildMarker currentUser m) m) (buildHoverText ck currentUser m)
       (case replyTarget of
          None \<Rightarrow> None
        | Some r \<Rightarrow> if msgId r = msgId m then Some ''// replying to this message'' else None)"

text \<open>
  One iteration of \<^verbatim>\<open>chatMessages.forEach\<close> (Editor.tsx, 270-318) on the loop's state: the
  anchor \<^verbatim>\<open>lastTime\<close> and the lines pushed so far.
\<close>

definition renderStep ::
  "Clock \<Rightarrow> string option \<Rightarrow> ChatMessage option \<Rightarrow> Date option \<times> RenderedLine list \<Rightarrow> ChatMessage
     \<Rightarrow> Date option \<times> RenderedLine list" where
  "renderStep ck currentUser replyTarget st m =
     (case st of (lastTime, renderedLines) \<Rightarrow>
        (case createdAt m of
           None \<Rightarrow> (lastTime, renderedLines @ [chatLine ck currentUser replyTarget m])
         | Some created \<Rightarrow>
             if separatorDue lastTime created
             then (Some created,
                   (if formatTimeSeparator ck created \<noteq> []
                    then renderedLines @ [timestampLine ck m created]
                    else renderedLines) @ [chatLine ck currentUser replyTarget m])
             else (lastTime, renderedLines @ [chatLine ck currentUser replyTarget m])))"

definition renderLoop ::
  "Clock \<Rightarrow> string option \<Rightarrow> ChatMessage option \<Rightarrow> ChatMessage list
     \<Rightarrow> Date option \<times> RenderedLine list" where
  "renderLoop ck currentUser replyTarget chatMessages =
     foldl (renderStep ck currentUser replyTarget) (None, []) chatMessages"

definition renderedLines ::
  "Clock \<Rightarrow> string option \<Rightarrow> ChatMessage option \<Rightarrow> ChatMessage list \<Rightarrow> RenderedLine list" where
  "renderedLines ck currentUser replyTarget chatMessages =
     snd (renderLoop ck currentUser replyTarget chatMessages)"

text \<open>
  The anchor \<^verbatim>\<open>lastTime\<close> after one iteration, and the anchor left by the iterations
  before index \<open>i\<close>. \<open>separatorAt\<close> is the loop's test for the message at index \<open>i\<close>
  on that anchor.
\<close>

definition nextAnchor :: "Date option \<Rightarrow> ChatMessage \<Rightarrow> Date option" where
  "nextAnchor lastTime m =
     (case createdAt m of
        None \<Rightarrow> lastTime
      | Some created \<Rightarrow> if separatorDue lastTime created then Some created else lastTime)"

definition anchorBefore :: "ChatMessage list \<Rightarrow> nat \<Rightarrow> Date option" where
  "anchorBefore chatMessages i = foldl nextAnchor None (take i chatMessages)"


section \<open>Auxiliary predicates and example data\<close>

text \<open>The one-shot flag of listener \<open>i\<close> has been consumed.\<close>

definition flagDown :: "nat \<Rightarrow> AppState \<Rightarrow> bool" where
  "flagDown i s = (i < length (listeners s) \<and> \<not> firstSnapshot (listeners s ! i))"

text \<open>A freshly mounted application with an empty, working local storage.\<close>

definition emptyStorage :: LocalStorage where
  "emptyStorage = \<lparr>available = True, items = Map.empty\<rparr>"

definition freshApp :: AppState where
  "freshApp = initialState emptyStorage None [] 0"

text \<open>A message of alice, created at time 1000 and seen by nobody else.\<close>

definition aliceDoc :: MessageDoc where
  "aliceDoc =
     \<lparr> doc_id = ''m1'', doc_sender = Some ''alice'', doc_content = Some ''hi'',
       doc_createdAt = Timestamp 1000, doc_seenBy = Some [''alice''],
       doc_seenAt = Some [(''alice'', Timestamp 1000)] \<rparr>"

text \<open>A message with a pending server timestamp.\<close>

definition pendingDoc :: MessageDoc where
  "pendingDoc =
     \<lparr> doc_id = ''m2'', doc_sender = Some ''bob'', doc_content = Some ''yo'',
       doc_createdAt = Absent, doc_seenBy = Some [''bob''],
       doc_seenAt = Some [(''bob'', Absent)] \<rparr>"

text \<open>bob has logged into room r; the listeners 0, 1 and 2 are his.\<close>

definition bobApp :: AppState where
  "bobApp = step (CmdLogin [''r'', ''bob''] ''chat-1'') freshApp"

text \<open>A message of bob that a user with the empty name is recorded to have seen.\<close>

definition bobMsg :: ChatMessage where
  "bobMsg =
     \<lparr> msgId = ''m3'', sender = ''bob'', content = ''x'', createdAt = Some 5,
       seenBy = [''bob'', []], seenAt = [] \<rparr>"

text \<open>
  bob's tab has been hidden since time 60000 with his last activity at time 0, and
  hidden since time 0 with an activity at time 240000.
\<close>

definition hiddenApp :: AppState where
  "hiddenApp = run [CmdLogin [''r'', ''bob''] ''chat-1'', Visibility False 60000] freshApp"

definition busyHiddenApp :: AppState where
  "busyHiddenApp =
     run [CmdLogin [''r'', ''bob''] ''chat-1'', Visibility False 0, Activity 240000] freshApp"

text \<open>The poll runs at the given times, each with the content tree of that moment.\<close>

definition pollEvents :: "(FileNode list \<times> Date) list \<Rightarrow> Event list" where
  "pollEvents ticks = map (\<lambda>(files, now). PollTick files now) ticks"

definition pollDue :: "Date \<Rightarrow> AppState \<Rightarrow> bool" where
  "pollDue now s = (idleTooLong now s \<or> hiddenTooLong now s)"

text \<open>A visible chat file belongs to a logged-in session.\<close>

definition sessionInv :: "AppState \<Rightarrow> bool" where
  "sessionInv s = (truthy (chatFileId s) \<and> \<not> panic s \<longrightarrow> loggedIn (login s))"

text \<open>
  A ring event that is deleted without alert or notice: no sender, the observer's own, or
  older than five seconds by its \<^verbatim>\<open>createdAt\<close>.
\<close>

definition ringQuiet :: "string \<Rightarrow> Date \<Rightarrow> RingDoc \<Rightarrow> bool" where
  "ringQuiet currentUser now d =
     (\<not> truthy (ring_sender d) \<or> ring_sender d = Some currentUser
      \<or> (case toJsDate (ring_createdAt d) of
            None \<Rightarrow> False
          | Some created \<Rightarrow> 5000 < now - created))"

definition fallbackNotice :: "string \<Rightarrow> TerminalLine" where
  "fallbackNotice sndr = (''ring: '' @ sndr @ '' triggered a notification'', Green)"

definition receivedNotice :: "string \<Rightarrow> TerminalLine" where
  "receivedNotice sndr = (''ring received from '' @ sndr, Default)"

text \<open>Ring events of alice: created at time 1000, and with a pending timestamp.\<close>

definition aliceRing :: RingDoc where
  "aliceRing = \<lparr>ring_id = ''ring-1'', ring_sender = Some ''alice'', ring_createdAt = Timestamp 1000\<rparr>"

definition pendingRing :: RingDoc where
  "pendingRing = \<lparr>ring_id = ''ring-2'', ring_sender = Some ''alice'', ring_createdAt = Absent\<rparr>"

definition anonymousRing :: RingDoc where
  "anonymousRing = \<lparr>ring_id = ''ring-3'', ring_sender = None, ring_createdAt = Timestamp 1000\<rparr>"

text \<open>
  The unsubscribe function the application holds for a stream kind, the live listeners
  of a kind, and the listener a new subscription registers.
\<close>

fun handleOf :: "StreamKind \<Rightarrow> AppState \<Rightarrow> nat option" where
  "handleOf MessagesStream s = unsubscribeMessages s"
| "handleOf PresenceStream s = unsubscribePresence s"
| "handleOf RingsStream s = unsubscribeRings s"

definition liveOf :: "StreamKind \<Rightarrow> AppState \<Rightarrow> Listener list" where
  "liveOf k s = filter (\<lambda>l. live l \<and> l_kind l = k) (listeners s)"

definition freshListener :: "StreamKind \<Rightarrow> string \<Rightarrow> string \<Rightarrow> Listener" where
  "freshListener k room user =
     \<lparr>l_kind = k, l_room = room, l_user = user, firstSnapshot = True, live = True\<rparr>"

text \<open>
  Every live listener is the one the application holds the unsubscribe function of, and
  every held unsubscribe function belongs to a registered listener.
\<close>

definition handlesValid :: "AppState \<Rightarrow> bool" where
  "handlesValid s =
     ((\<forall>i<length (listeners s).
          live (listeners s ! i) \<longrightarrow> handleOf (l_kind (listeners s ! i)) s = Some i)
      \<and> (\<forall>k u. handleOf k s = Some u \<longrightarrow> u < length (listeners s)))"

definition detach :: "nat option \<Rightarrow> Listener list \<Rightarrow> Listener list" where
  "detach h ls =
     (case h of
        None \<Rightarrow> ls
      | Some u \<Rightarrow> if u < length ls then ls[u := (ls ! u)\<lparr>live := False\<rparr>] else ls)"

text \<open>Listener \<open>u\<close> is registered and has been unsubscribed.\<close>

definition detached :: "nat \<Rightarrow> AppState \<Rightarrow> bool" where
  "detached u s = (u < length (listeners s) \<and> \<not> live (listeners s ! u))"

text \<open>Two states agree on which listeners are live, on their kinds and on the handles.\<close>

definition sameSubs :: "AppState \<Rightarrow> AppState \<Rightarrow> bool" where
  "sameSubs s' s =
     (map live (listeners s') = map live (listeners s)
      \<and> map l_kind (listeners s') = map l_kind (listeners s)
      \<and> unsubscribeMessages s' = unsubscribeMessages s
      \<and> unsubscribePresence s' = unsubscribePresence s
      \<and> unsubscribeRings s' = unsubscribeRings s)"






section \<open>Properties of the message feed\<close>

lemma createdAt_toChatMessage [simp]: "createdAt (toChatMessage d) = toJsDate (doc_createdAt d)"
  by (simp add: toChatMessage_def)

lemma hiddenBySnapshot_None [simp]: "hiddenBySnapshot hb None = False"
  by (cases hb) simp_all

lemma collectDocs_filter:
  "collectDocs hb ds =
     map toChatMessage (filter (\<lambda>d. \<not> hiddenBySnapshot hb (toJsDate (doc_createdAt d))) ds)"
  by (induction ds) simp_all

lemma collectDocs_null:
  "filter (\<lambda>m. createdAt m = None) (collectDocs hb ds)
     = map toChatMessage (filter (\<lambda>d. toJsDate (doc_createdAt d) = None) ds)"
  by (induction ds) auto

lemma messages_messagesCallback:
  "messages (messagesCallback i snapshot s) =
     collectDocs (readHideBefore (localStorage s) (l_room (listeners s ! i))
                    (l_user (listeners s ! i))) snapshot"
  by (simp add: messagesCallback_def Let_def)

lemma messages_clear_local:
  "messages (clear_local nowMs s) =
     (case sessionOf (login s) of
        None \<Rightarrow> messages s
      | Some _ \<Rightarrow> filter (keptByClear nowMs) (messages s))"
  by (simp add: clear_local_def appendTerminalLine_def split: option.splits prod.splits)

lemma filter_null_kept:
  "filter (\<lambda>m. createdAt m = None) (filter (keptByClear nowMs) ms)
     = filter (\<lambda>m. createdAt m = None) ms"
  by (induction ms) auto

text \<open>
  Claim C9. A message whose \<^verbatim>\<open>createdAt\<close> is null is never removed by watermark
  filtering. Whatever the watermark \<open>hideBeforeTime\<close>, the messages with a null
  \<^verbatim>\<open>createdAt\<close> that the snapshot loop keeps are exactly the snapshot's documents with a
  null \<^verbatim>\<open>createdAt\<close>, in order; the same holds for the callback in any state (so for any
  stored watermark); and \<^verbatim>\<open>clear_local\<close> leaves the cached messages with a null
  \<^verbatim>\<open>createdAt\<close> as they are, for every \<open>nowMs\<close>.
\<close>

theorem null_createdAt_survives_watermark:
  "filter (\<lambda>m. createdAt m = None) (collectDocs hideBeforeTime snapshot)
     = map toChatMessage (filter (\<lambda>d. toJsDate (doc_createdAt d) = None) snapshot)
   \<and> filter (\<lambda>m. createdAt m = None) (messages (messagesCallback i snapshot s))
     = map toChatMessage (filter (\<lambda>d. toJsDate (doc_createdAt d) = None) snapshot)
   \<and> filter (\<lambda>m. createdAt m = None) (messages (clear_local nowMs s))
     = filter (\<lambda>m. createdAt m = None) (messages s)"
  by (simp add: messages_messagesCallback collectDocs_null messages_clear_local filter_null_kept
           split: option.splits)

subsection \<open>The stored watermark\<close>

lemma of_char_digit_char: "d < 10 \<Longrightarrow> (of_char (digit_char d) :: nat) = 48 + d"
  by (simp add: digit_char_def)

lemma is_digit_digit_char: "d < 10 \<Longrightarrow> is_digit (digit_char d)"
  by (simp add: is_digit_def of_char_digit_char)

lemma digit_val_digit_char: "d < 10 \<Longrightarrow> digit_val (digit_char d) = d"
  by (simp add: digit_val_def of_char_digit_char)

lemma decimal_digits: "c \<in> set (decimal n) \<Longrightarrow> is_digit c"
proof (induction n arbitrary: c rule: decimal.induct)
  case (1 n)
  show ?case
  proof (cases "n < 10")
    case True
    with 1(2) show ?thesis by (simp add: decimal.simps[of n] is_digit_digit_char)
  next
    case False
    with 1 show ?thesis by (auto simp: decimal.simps[of n] is_digit_digit_char)
  qed
qed

lemma decimal_nonempty: "decimal n \<noteq> []"
  by (subst decimal.simps) simp

lemma digits_value_snoc: "digits_value (ds @ [c]) = 10 * digits_value ds + digit_val c"
  by (simp add: digits_value_def)

lemma digits_value_decimal: "digits_value (decimal n) = n"
proof (induction n rule: decimal.induct)
  case (1 n)
  show ?case
  proof (cases "n < 10")
    case True
    then show ?thesis by (simp add: decimal.simps[of n] digits_value_def digit_val_digit_char)
  next
    case False
    with 1 show ?thesis by (simp add: decimal.simps[of n] digits_value_snoc digit_val_digit_char)
  qed
qed

lemma digit_not_space: "is_digit c \<Longrightarrow> \<not> is_space c"
  by (auto simp: is_digit_def is_space_def)

lemma digit_not_sign: "is_digit c \<Longrightarrow> c \<noteq> CHR ''-'' \<and> c \<noteq> CHR ''+''"
  by (auto simp: is_digit_def)

lemma minus_not_space: "\<not> is_space CHR ''-''"
  by (simp add: is_space_def)

lemma parseInt_digits:
  assumes "ds \<noteq> []" and "\<forall>c\<in>set ds. is_digit c"
  shows "parseInt ds = Some (int (digits_value ds))"
    and "parseInt (CHR ''-'' # ds) = Some (- int (digits_value ds))"
proof -
  obtain c cs where ds: "ds = c # cs" using assms(1) by (cases ds) auto
  have tw: "takeWhile is_digit ds = ds" using assms(2) by (simp add: takeWhile_eq_all_conv)
  have c: "is_digit c" using assms(2) ds by simp
  have dw: "dropWhile is_space ds = ds" using c ds by (simp add: digit_not_space)
  have ss: "strip_sign ds = (False, ds)" using digit_not_sign[OF c] by (simp add: ds)
  show "parseInt ds = Some (int (digits_value ds))"
    unfolding parseInt_def dw ss using assms(1) by (simp add: tw Let_def)
  show "parseInt (CHR ''-'' # ds) = Some (- int (digits_value ds))"
    unfolding parseInt_def using assms(1) by (simp add: minus_not_space Let_def tw)
qed

lemma parseInt_String_of_int: "parseInt (String_of_int i) = Some i"
  using parseInt_digits[of "decimal (nat i)"] parseInt_digits[of "decimal (nat (- i))"]
  by (auto simp: String_of_int_def decimal_nonempty decimal_digits digits_value_decimal)

lemma String_of_int_nonempty: "String_of_int i \<noteq> []"
  by (simp add: String_of_int_def decimal_nonempty)

lemma readHideBefore_after_setItem:
  "available ls \<Longrightarrow> readHideBefore (setItem (hideBeforeKey room user) (String_of_int nowMs) ls) room user = Some nowMs"
  by (simp add: readHideBefore_def getItem_def setItem_def parseInt_String_of_int String_of_int_nonempty)


text \<open>
  What the two filters do with a watermark \<open>w\<close>: the snapshot loop keeps the documents
  created strictly after it, \<^verbatim>\<open>clear_local\<close> keeps the cached messages created at or
  after it.
\<close>

lemma collectDocs_watermark:
  "collectDocs (Some w) ds =
     map toChatMessage
       (filter (\<lambda>d. case toJsDate (doc_createdAt d) of None \<Rightarrow> True | Some t \<Rightarrow> w < t) ds)"
  by (induction ds) (auto split: option.splits)

lemma clear_local_watermark:
  assumes "sessionOf (login s) = Some (room, user)" and "available (localStorage s)"
  shows "messages (clear_local nowMs s) =
           filter (\<lambda>m. case createdAt m of None \<Rightarrow> True | Some t \<Rightarrow> nowMs \<le> t) (messages s)"
    and "readHideBefore (localStorage (clear_local nowMs s)) room user = Some nowMs"
  using assms
  by (simp_all add: clear_local_def appendTerminalLine_def readHideBefore_after_setItem
        cong: filter_cong)

text \<open>
  Claim C1, at the boundary. bob, logged into room r, holds alice's message created at
  time 1000. \<^verbatim>\<open>clear_local\<close> at time 1000 keeps it in the local view; after logging out
  and in again, the first snapshot of the new subscription (listener 3), which contains
  the same message, leaves the view empty: a message created exactly at the watermark is
  hidden after re-subscription.
\<close>

theorem watermark_boundary_dropped_on_resubscribe:
  "messages (run [MessagesSnapshot 0 [aliceDoc], CmdClearLocal 1000] bobApp)
     = [toChatMessage aliceDoc]
   \<and> messages (run [MessagesSnapshot 0 [aliceDoc], CmdClearLocal 1000, CmdLogout,
                     CmdLogin [''r'', ''bob''] ''chat-2'', MessagesSnapshot 3 [aliceDoc]] bobApp)
     = []"
  by code_simp

subsection \<open>The one-shot unread summary\<close>

lemma listeners_unsubscribe:
  "listeners (unsubscribe u s) = (if u < length (listeners s) then (listeners s)[u := (listeners s ! u)\<lparr>live := False\<rparr>] else listeners s)"
  by (simp add: unsubscribe_def)

lemma length_listeners_unsubscribe [simp]: "length (listeners (unsubscribe u s)) = length (listeners s)"
  by (simp add: unsubscribe_def)

lemma flag_unsubscribe [simp]:
  "i < length (listeners s) \<Longrightarrow> firstSnapshot (listeners (unsubscribe u s) ! i) = firstSnapshot (listeners s ! i)"
  by (simp add: unsubscribe_def nth_list_update)

lemma listeners_onRingChange [simp]: "listeners (onRingChange r u api c s) = listeners s"
  by (simp add: onRingChange_def deleteRing_def appendTerminalLine_def ringNotify_def split: prod.splits)

lemma listeners_ringsFold [simp]:
  "listeners (foldl (\<lambda>st c. onRingChange r u api c st) s cs) = listeners s"
  by (induction cs arbitrary: s) simp_all

lemma listeners_onPresenceDoc [simp]: "listeners (onPresenceDoc u now prev d s) = listeners s"
  by (simp add: onPresenceDoc_def appendTerminalLine_def Let_def)

lemma listeners_presenceFold [simp]:
  "listeners (foldl (\<lambda>st d. onPresenceDoc u now prev d st) s ds) = listeners s"
  by (induction ds arbitrary: s) simp_all

lemma flagDown_unsubscribe [simp]: "flagDown i (unsubscribe u s) = flagDown i s"
  by (auto simp: flagDown_def)

lemma flagDown_subscribeToMessages: "flagDown i s \<Longrightarrow> flagDown i (subscribeToMessages r u s)"
  by (auto simp: flagDown_def subscribeToMessages_def onSnapshot_def nth_append Let_def split: option.splits)
lemma flagDown_subscribeToPresence: "flagDown i s \<Longrightarrow> flagDown i (subscribeToPresence r u s)"
  by (auto simp: flagDown_def subscribeToPresence_def onSnapshot_def nth_append Let_def split: option.splits)
lemma flagDown_subscribeToRings: "flagDown i s \<Longrightarrow> flagDown i (subscribeToRings r u s)"
  by (auto simp: flagDown_def subscribeToRings_def onSnapshot_def nth_append Let_def split: option.splits)

lemma flagDown_simps [simp]:
  "flagDown i (appendTerminalLine t c s) = flagDown i s"
  "flagDown i (storeIdentity r u s) = flagDown i s"
  "flagDown i (removeIdentity s) = flagDown i s"
  "flagDown i (ensureChatFile n s) = flagDown i s"
  "flagDown i (hideChatAndSwitch fs s) = flagDown i s"
  "flagDown i (s\<lparr>login := l\<rparr>) = flagDown i s"
  "flagDown i (s\<lparr>panic := p\<rparr>) = flagDown i s"
  "flagDown i (s\<lparr>activeFileId := a\<rparr>) = flagDown i s"
  "flagDown i (s\<lparr>messages := ms\<rparr>) = flagDown i s"
  "flagDown i (s\<lparr>localStorage := ls\<rparr>) = flagDown i s"
  "flagDown i (s\<lparr>remoteMessages := rm\<rparr>) = flagDown i s"
  "flagDown i (s\<lparr>lastActivity := la\<rparr>) = flagDown i s"
  "flagDown i (s\<lparr>lastHidden := lh\<rparr>) = flagDown i s"
  "flagDown i (s\<lparr>tabVisible := tv\<rparr>) = flagDown i s"
  by (simp_all add: flagDown_def appendTerminalLine_def storeIdentity_def removeIdentity_def
        ensureChatFile_def hideChatAndSwitch_def)

lemma flagDown_attachAll [simp]: "flagDown i s \<Longrightarrow> flagDown i (attachAll r u n s)"
  unfolding attachAll_def
  by (intro flagDown_subscribeToRings flagDown_subscribeToPresence flagDown_subscribeToMessages) simp

lemma flagDown_messagesCallback: "flagDown i s \<Longrightarrow> flagDown i (messagesCallback j snap s)"
  by (cases "j = i") (auto simp: flagDown_def messagesCallback_def Let_def)

lemma flagDown_handle: "flagDown i s \<Longrightarrow> flagDown i (handle e s)"
proof (cases e)
  case (CmdLogin rest newId)
  assume "flagDown i s"
  then show ?thesis
    by (simp add: CmdLogin cmd_login_def Let_def split: list.splits)
next
  case (AutoLogin newId)
  assume "flagDown i s"
  then show ?thesis
    by (simp add: AutoLogin autoLogin_def split: option.splits prod.splits)
next
  case CmdLogout
  assume "flagDown i s"
  then show ?thesis
    by (simp add: CmdLogout cmd_logout_def Let_def split: option.splits)
next
  case (MessagesSnapshot j snap)
  assume "flagDown i s" then show ?thesis 
    by (simp add: MessagesSnapshot deliverMessages_def flagDown_messagesCallback)
next
  case (SendChat body t r)
  assume "flagDown i s" then show ?thesis
    by (simp add: SendChat handleSendChat_def sendMessage_def Let_def split: option.splits prod.splits AddResult.splits Settled.splits)
next
  case (PresenceSnapshot j now ds)
  assume "flagDown i s" then show ?thesis
    by (simp add: PresenceSnapshot deliverPresence_def presenceCallback_def flagDown_def)
next
  case (RingsSnapshot j api cs)
  assume "flagDown i s" then show ?thesis
    by (simp add: RingsSnapshot deliverRings_def ringsCallback_def flagDown_def)
qed (simp_all add: cmd_ncp_run_def cmd_hide_chat_def clear_local_def
      markActivity_def visHandler_def pollTick_def split: option.splits prod.splits)

lemma flagDown_step: "flagDown i s \<Longrightarrow> flagDown i (step e s)"
  using flagDown_handle[of i s e] by (simp add: step_def panicFocusEffect_def flagDown_def)

lemma flagDown_run: "flagDown i s \<Longrightarrow> flagDown i (run es s)"
  unfolding run_def by (induction es arbitrary: s) (simp_all add: flagDown_step)

lemma terminalLines_messagesCallback:
  "terminalLines (messagesCallback i snapshot s) =
     terminalLines s @
       (if firstSnapshot (listeners s ! i)
           \<and> 0 < unreadCount (l_user (listeners s ! i))
                 (collectDocs (readHideBefore (localStorage s) (l_room (listeners s ! i)) (l_user (listeners s ! i))) snapshot)
        then [summaryLine (unreadCount (l_user (listeners s ! i))
                 (collectDocs (readHideBefore (localStorage s) (l_room (listeners s ! i)) (l_user (listeners s ! i))) snapshot))]
        else [])"
  by (simp add: messagesCallback_def Let_def)

lemma flagDown_after_first:
  "i < length (listeners s) \<Longrightarrow> flagDown i (messagesCallback i snapshot s)"
  by (simp add: flagDown_def messagesCallback_def Let_def)

lemma no_summary_when_flagDown:
  "flagDown i s \<Longrightarrow> terminalLines (deliverMessages i snapshot s) = terminalLines s"
  by (simp add: deliverMessages_def terminalLines_messagesCallback flagDown_def)


text \<open>
  Claim C2, as amended. Let listener \<open>i\<close> be a live listener of the message feed that
  has not yet received a snapshot. Its first snapshot appends exactly one summary line
  when the number of kept messages with sender other than the listener's user and
  without that user in \<^verbatim>\<open>seenBy\<close> is positive, and appends nothing when that number
  is zero. After that, whatever events follow, a snapshot delivered to the same listener
  appends nothing to the terminal.
\<close>

theorem first_snapshot_summary_once:
  assumes "i < length (listeners s)" and "live (listeners s ! i)"
    and "l_kind (listeners s ! i) = MessagesStream" and "firstSnapshot (listeners s ! i)"
  shows "terminalLines (deliverMessages i snapshot s) =
           terminalLines s @
             (let unread = unreadCount (l_user (listeners s ! i))
                 (collectDocs (readHideBefore (localStorage s) (l_room (listeners s ! i))
                                 (l_user (listeners s ! i))) snapshot)
              in if 0 < unread then [summaryLine unread] else [])
         \<and> terminalLines (deliverMessages i later (run es (deliverMessages i snapshot s)))
             = terminalLines (run es (deliverMessages i snapshot s))"
proof -
  have d: "deliverMessages i snapshot s = messagesCallback i snapshot s"
    using assms by (simp add: deliverMessages_def)
  have "flagDown i (run es (deliverMessages i snapshot s))"
    unfolding d using assms(1) by (intro flagDown_run flagDown_after_first)
  then show ?thesis
    using assms by (simp add: d terminalLines_messagesCallback no_summary_when_flagDown Let_def)
qed

theorem first_snapshot_summary_once_witness:
  "0 < length (listeners bobApp) \<and> live (listeners bobApp ! 0)
   \<and> l_kind (listeners bobApp ! 0) = MessagesStream \<and> firstSnapshot (listeners bobApp ! 0)
   \<and> terminalLines (deliverMessages 0 [aliceDoc, pendingDoc] bobApp)
       = terminalLines bobApp @ [summaryLine 1]
   \<and> terminalLines (deliverMessages 0 [aliceDoc, aliceDoc]
         (run [CmdClearLocal 5] (deliverMessages 0 [aliceDoc, pendingDoc] bobApp)))
       = terminalLines (run [CmdClearLocal 5] (deliverMessages 0 [aliceDoc, pendingDoc] bobApp))"
proof -
  have h1: "0 < length (listeners bobApp)" by code_simp
  have h2: "live (listeners bobApp ! 0)" by code_simp
  have h3: "l_kind (listeners bobApp ! 0) = MessagesStream" by code_simp
  have h4: "firstSnapshot (listeners bobApp ! 0)" by code_simp
  have u: "unreadCount (l_user (listeners bobApp ! 0))
             (collectDocs (readHideBefore (localStorage bobApp) (l_room (listeners bobApp ! 0))
                (l_user (listeners bobApp ! 0))) [aliceDoc, pendingDoc]) = 1"
    by code_simp
  from first_snapshot_summary_once[OF h1 h2 h3 h4, of "[aliceDoc, pendingDoc]"
         "[aliceDoc, aliceDoc]" "[CmdClearLocal 5]"]
  have "terminalLines (deliverMessages 0 [aliceDoc, pendingDoc] bobApp)
       = terminalLines bobApp @ [summaryLine 1]
   \<and> terminalLines (deliverMessages 0 [aliceDoc, aliceDoc]
         (run [CmdClearLocal 5] (deliverMessages 0 [aliceDoc, pendingDoc] bobApp)))
       = terminalLines (run [CmdClearLocal 5] (deliverMessages 0 [aliceDoc, pendingDoc] bobApp))"
    by (simp only: u Let_def zero_less_one if_True)
  with h1 h2 h3 h4 show ?thesis by blast
qed

text \<open>
  The claim as stated fails on a first snapshot without unread messages: bob's fresh
  listener receives a snapshot holding only his own message, and the terminal stays as
  it was.
\<close>

theorem first_snapshot_zero_unread_silent:
  "firstSnapshot (listeners bobApp ! 0) \<and> live (listeners bobApp ! 0)
   \<and> l_kind (listeners bobApp ! 0) = MessagesStream
   \<and> unreadCount ''bob'' (messages (deliverMessages 0 [pendingDoc] bobApp)) = 0
   \<and> terminalLines (deliverMessages 0 [pendingDoc] bobApp) = terminalLines bobApp"
  by code_simp

section \<open>Properties of sending\<close>

lemma sendMessage_cases:
  "sendMessage body st res s =
     (case sessionOf (login s) of
        None \<Rightarrow> (Fulfilled, appendTerminalLine ''error: not logged in'' Red s)
      | Some (room, user) \<Rightarrow>
          if trim body = [] then (Fulfilled, s)
          else (case res of
                  AddOk newId \<Rightarrow> (Fulfilled, s\<lparr>remoteMessages := remoteMessages s @ [(room, newMessageDoc newId user (trim body) st)]\<rparr>)
                | AddFirebaseError code \<Rightarrow> (RejectedFirebase code, s)
                | AddOtherError e \<Rightarrow> (RejectedOther e, s)))"
  by (simp add: sendMessage_def Let_def split: option.splits prod.splits)

lemma toChatMessage_newMessageDoc:
  "toChatMessage (newMessageDoc newId user trimmed st) =
     \<lparr>msgId = newId, sender = user, content = trimmed, createdAt = Some st,
      seenBy = [user], seenAt = [(user, Some st)]\<rparr>"
  by (simp add: toChatMessage_def newMessageDoc_def seenAtOf_def)


text \<open>
  Claim C3, as amended. \<^verbatim>\<open>sendMessage\<close> checks the session first. Without an active
  session it reports \<^verbatim>\<open>error: not logged in\<close> on the terminal and appends no message.
  With a session and a content that is empty after trimming it does nothing at all:
  nothing is appended and nothing is reported. Otherwise it appends exactly one message
  to the room's collection, which reads back with the trimmed content, the user as
  sender, \<^verbatim>\<open>seenBy\<close> holding the user alone and \<^verbatim>\<open>seenAt\<close> and \<^verbatim>\<open>createdAt\<close> at the
  server's time. In the first two cases the promise is fulfilled, not rejected. The
  three outcomes differ in their effects: one more terminal line exactly when there is
  no session, one more stored message exactly when there is a session and a non-empty
  trimmed content.
\<close>

theorem send_outcomes:
  "(sessionOf (login s) = None \<longrightarrow>
      sendMessage body st res s = (Fulfilled, appendTerminalLine ''error: not logged in'' Red s))
   \<and> (sessionOf (login s) = Some (room, user) \<and> trim body = [] \<longrightarrow>
      sendMessage body st res s = (Fulfilled, s))
   \<and> (sessionOf (login s) = Some (room, user) \<and> trim body \<noteq> [] \<longrightarrow>
      (\<exists>doc. sendMessage body st (AddOk newId) s
               = (Fulfilled, s\<lparr>remoteMessages := remoteMessages s @ [(room, doc)]\<rparr>)
             \<and> toChatMessage doc =
                 \<lparr>msgId = newId, sender = user, content = trim body, createdAt = Some st,
                  seenBy = [user], seenAt = [(user, Some st)]\<rparr>))
   \<and> length (terminalLines (snd (sendMessage body st res s)))
       = length (terminalLines s) + (if sessionOf (login s) = None then 1 else 0)
   \<and> length (remoteMessages (snd (sendMessage body st (AddOk newId) s)))
       = length (remoteMessages s) + (if sessionOf (login s) = None \<or> trim body = [] then 0 else 1)"
proof (intro conjI impI)
  assume "sessionOf (login s) = None"
  then show "sendMessage body st res s = (Fulfilled, appendTerminalLine ''error: not logged in'' Red s)"
    by (simp add: sendMessage_cases)
next
  assume "sessionOf (login s) = Some (room, user) \<and> trim body = []"
  then show "sendMessage body st res s = (Fulfilled, s)"
    by (simp add: sendMessage_cases)
next
  assume a: "sessionOf (login s) = Some (room, user) \<and> trim body \<noteq> []"
  let ?doc = "newMessageDoc newId user (trim body) st"
  have "sendMessage body st (AddOk newId) s
          = (Fulfilled, s\<lparr>remoteMessages := remoteMessages s @ [(room, ?doc)]\<rparr>)"
    using a by (simp add: sendMessage_cases)
  then show "\<exists>doc. sendMessage body st (AddOk newId) s
               = (Fulfilled, s\<lparr>remoteMessages := remoteMessages s @ [(room, doc)]\<rparr>)
             \<and> toChatMessage doc =
                 \<lparr>msgId = newId, sender = user, content = trim body, createdAt = Some st,
                  seenBy = [user], seenAt = [(user, Some st)]\<rparr>"
    using toChatMessage_newMessageDoc by blast
next
  show "length (terminalLines (snd (sendMessage body st res s)))
       = length (terminalLines s) + (if sessionOf (login s) = None then 1 else 0)"
    by (cases "sessionOf (login s)"; cases res)
       (simp_all add: sendMessage_cases appendTerminalLine_def split: prod.splits)
next
  show "length (remoteMessages (snd (sendMessage body st (AddOk newId) s)))
       = length (remoteMessages s) + (if sessionOf (login s) = None \<or> trim body = [] then 0 else 1)"
    by (cases "sessionOf (login s)")
       (simp_all add: sendMessage_cases appendTerminalLine_def split: prod.splits)
qed

theorem send_outcomes_witness:
  "sessionOf (login freshApp) = None
   \<and> sendMessage ''hi'' 7 (AddOk ''m9'') freshApp
       = (Fulfilled, appendTerminalLine ''error: not logged in'' Red freshApp)
   \<and> sessionOf (login bobApp) = Some (''r'', ''bob'') \<and> trim ''   '' = []
   \<and> sendMessage ''   '' 7 (AddOk ''m9'') bobApp = (Fulfilled, bobApp)
   \<and> trim '' hi '' = ''hi''
   \<and> (\<exists>doc. sendMessage '' hi '' 7 (AddOk ''m9'') bobApp
               = (Fulfilled, bobApp\<lparr>remoteMessages := remoteMessages bobApp @ [(''r'', doc)]\<rparr>)
             \<and> toChatMessage doc =
                 \<lparr>msgId = ''m9'', sender = ''bob'', content = ''hi'', createdAt = Some 7,
                  seenBy = [''bob''], seenAt = [(''bob'', Some 7)]\<rparr>)"
proof -
  have n: "sessionOf (login freshApp) = None" by code_simp
  have sess: "sessionOf (login bobApp) = Some (''r'', ''bob'')" by code_simp
  have tr: "trim ''   '' = []" by code_simp
  have tr2: "trim '' hi '' = ''hi''" by code_simp
  show ?thesis
    using send_outcomes[of freshApp "''hi''" 7 "AddOk ''m9''" "''r''" "''bob''" "''m9''"]
          send_outcomes[of bobApp "''   ''" 7 "AddOk ''m9''" "''r''" "''bob''" "''m9''"]
          send_outcomes[of bobApp "'' hi ''" 7 "AddOk ''m9''" "''r''" "''bob''" "''m9''"]
    by (simp add: n sess tr tr2)
qed

text \<open>
  The claim as stated fails on an empty content: bob, logged in, sends three blanks. The
  promise is fulfilled and the state is unchanged, so no error of any kind is raised or
  reported, and \<^verbatim>\<open>handleSendChat\<close> leaves the same terminal lines as for a message
  that was sent.
\<close>

theorem send_empty_content_no_error:
  "sessionOf (login bobApp) = Some (''r'', ''bob'') \<and> trim ''   '' = []
   \<and> sendMessage ''   '' 7 (AddOk ''m9'') bobApp = (Fulfilled, bobApp)
   \<and> terminalLines (handleSendChat ''   '' 7 (AddOk ''m9'') bobApp)
       = terminalLines (handleSendChat ''hi'' 7 (AddOk ''m9'') bobApp)"
proof -
  have sess: "sessionOf (login bobApp) = Some (''r'', ''bob'')" by code_simp
  have tr: "trim ''   '' = []" by code_simp
  have tr2: "trim ''hi'' \<noteq> []" by code_simp
  show ?thesis
    by (simp add: handleSendChat_def sendMessage_cases sess tr tr2 appendTerminalLine_def)
qed

section \<open>Properties of the read marker\<close>

text \<open>
  Claim C4, as amended. For every message and every viewer with a non-empty name, the
  marker is \<^verbatim>\<open>##\<close> for the author's own message exactly when \<^verbatim>\<open>seenBy\<close> contains a
  user other than the author, and for a message of somebody else exactly when the viewer
  is in \<^verbatim>\<open>seenBy\<close>; otherwise it is \<^verbatim>\<open>#\<close>. The marker of the chat-file projection is
  the same. Without a viewer name (null or empty) the marker is always \<^verbatim>\<open>#\<close>.
\<close>

theorem marker_for_named_viewer:
  assumes "u \<noteq> []"
  shows "buildMarker (Some u) m =
           (if sender m = u
            then (if \<exists>x\<in>set (seenBy m). x \<noteq> u then ''##'' else ''#'')
            else (if u \<in> set (seenBy m) then ''##'' else ''#''))
         \<and> projectionMarker (Some u) m = buildMarker (Some u) m
         \<and> buildMarker None m = ''#'' \<and> buildMarker (Some []) m = ''#''
         \<and> projectionMarker None m = ''#'' \<and> projectionMarker (Some []) m = ''#''"
  using assms
  by (auto simp: buildMarker_def projectionMarker_def isOwn_def list_ex_iff Let_def)

theorem marker_for_named_viewer_witness:
  "''alice'' \<noteq> [] \<and> buildMarker (Some ''alice'') (toChatMessage aliceDoc) = ''#''
   \<and> buildMarker (Some ''alice'') ((toChatMessage aliceDoc)\<lparr>seenBy := [''alice'', ''bob'']\<rparr>) = ''##''
   \<and> buildMarker (Some ''bob'') (toChatMessage aliceDoc) = ''#''
   \<and> buildMarker (Some ''bob'') ((toChatMessage aliceDoc)\<lparr>seenBy := [''alice'', ''bob'']\<rparr>) = ''##''"
proof -
  have a: "''alice'' \<noteq> []" by simp
  have b: "''bob'' \<noteq> []" by simp
  show ?thesis
    using marker_for_named_viewer[OF a, of "toChatMessage aliceDoc"]
      marker_for_named_viewer[OF a, of "(toChatMessage aliceDoc)\<lparr>seenBy := [''alice'', ''bob'']\<rparr>"]
      marker_for_named_viewer[OF b, of "toChatMessage aliceDoc"]
      marker_for_named_viewer[OF b, of "(toChatMessage aliceDoc)\<lparr>seenBy := [''alice'', ''bob'']\<rparr>"]
    by (simp add: toChatMessage_def aliceDoc_def)
qed

text \<open>
  The claim as stated fails for the viewer with the empty name, which the command
  \<^verbatim>\<open>login r  x\<close> (two blanks) logs in: the viewer is not the author of bob's message and
  is in its \<^verbatim>\<open>seenBy\<close>, and the marker is \<^verbatim>\<open>#\<close>.
\<close>

theorem marker_empty_viewer_name:
  "commandWords ''login r  x'' = (''login'', [''r'', [], ''x''])
   \<and> userName (login (step (CmdLogin [''r'', [], ''x''] ''chat-1'') freshApp)) = Some []
   \<and> sender bobMsg \<noteq> [] \<and> [] \<in> set (seenBy bobMsg)
   \<and> buildMarker (Some []) bobMsg = ''#''
   \<and> projectionMarker (Some []) bobMsg = ''#''"
  by code_simp

section \<open>Properties of ring events\<close>

text \<open>
  Claim C7, as amended. For every newly added ring event observed: if it has no sender
  (missing or empty), or its sender is the observing user, or its \<^verbatim>\<open>createdAt\<close> is set
  and its age exceeds 5000 ms, it is deleted with no alert and no notice. Otherwise one
  system alert is shown when notifications are available and permitted, and the fallback
  notice is emitted instead when they are not (or the alert throws); the notice that a
  ring was received is emitted in all such cases, and the event is then deleted. Changes
  that are not additions have no effect.
\<close>

theorem ring_event_handling:
  "(let s' = onRingChange room currentUser api (now, Added, d) s in
     ringDeletes s' = ringDeletes s @ [(room, ring_id d)]
     \<and> notifications s' = notifications s @
          (if ringQuiet currentUser now d \<or> api \<noteq> PermissionGranted then [] else [ringAlertText])
     \<and> terminalLines s' = terminalLines s @
          (if ringQuiet currentUser now d then []
           else (if api = PermissionGranted then [] else [fallbackNotice (the (ring_sender d))])
                @ [receivedNotice (the (ring_sender d))]))
   \<and> onRingChange room currentUser api (now, Modified, d) s = s
   \<and> onRingChange room currentUser api (now, Removed, d) s = s"
  by (simp add: onRingChange_def ringQuiet_def deleteRing_def appendTerminalLine_def ringNotify_def
        fallbackNotice_def receivedNotice_def Let_def split: option.splits)

theorem ring_event_handling_witness:
  "\<not> ringQuiet ''bob'' 2000 aliceRing \<and> ringQuiet ''bob'' 6001 aliceRing
   \<and> ringQuiet ''alice'' 2000 aliceRing
   \<and> ringDeletes (onRingChange ''r'' ''bob'' PermissionNotGranted (2000, Added, aliceRing) bobApp)
       = ringDeletes bobApp @ [(''r'', ''ring-1'')]
   \<and> notifications (onRingChange ''r'' ''bob'' PermissionNotGranted (2000, Added, aliceRing) bobApp)
       = notifications bobApp
   \<and> terminalLines (onRingChange ''r'' ''bob'' PermissionNotGranted (2000, Added, aliceRing) bobApp)
       = terminalLines bobApp @ [fallbackNotice ''alice'', receivedNotice ''alice'']
   \<and> notifications (onRingChange ''r'' ''bob'' PermissionGranted (2000, Added, aliceRing) bobApp)
       = notifications bobApp @ [ringAlertText]
   \<and> terminalLines (onRingChange ''r'' ''bob'' PermissionGranted (2000, Added, aliceRing) bobApp)
       = terminalLines bobApp @ [receivedNotice ''alice'']
   \<and> terminalLines (onRingChange ''r'' ''bob'' PermissionGranted (6001, Added, aliceRing) bobApp)
       = terminalLines bobApp
   \<and> notifications (onRingChange ''r'' ''alice'' PermissionGranted (2000, Added, aliceRing) bobApp)
       = notifications bobApp"
proof -
  have q1: "\<not> ringQuiet ''bob'' 2000 aliceRing" by code_simp
  have q2: "ringQuiet ''bob'' 6001 aliceRing" by code_simp
  have q3: "ringQuiet ''alice'' 2000 aliceRing" by code_simp
  have sn: "ring_sender aliceRing = Some ''alice''" "ring_id aliceRing = ''ring-1''"
    by (simp_all add: aliceRing_def)
  show ?thesis
    using ring_event_handling[of "''r''" "''bob''" PermissionNotGranted 2000 aliceRing bobApp]
      ring_event_handling[of "''r''" "''bob''" PermissionGranted 2000 aliceRing bobApp]
      ring_event_handling[of "''r''" "''bob''" PermissionGranted 6001 aliceRing bobApp]
      ring_event_handling[of "''r''" "''alice''" PermissionGranted 2000 aliceRing bobApp]
    by (simp add: q1 q2 q3 sn Let_def)
qed

text \<open>
  The claim as stated fails on a ring event without a sender: it is not the observer's
  own and it is one second old, and it is deleted without alert or notice.
\<close>

theorem ring_without_sender_silent:
  "ring_sender anonymousRing \<noteq> Some ''bob''
   \<and> toJsDate (ring_createdAt anonymousRing) = Some 1000 \<and> \<not> (5000 < (2000 - 1000 :: int))
   \<and> notifications (onRingChange ''r'' ''bob'' PermissionGranted (2000, Added, anonymousRing) bobApp)
       = notifications bobApp
   \<and> terminalLines (onRingChange ''r'' ''bob'' PermissionGranted (2000, Added, anonymousRing) bobApp)
       = terminalLines bobApp
   \<and> ringDeletes (onRingChange ''r'' ''bob'' PermissionGranted (2000, Added, anonymousRing) bobApp)
       = [(''r'', ''ring-3'')]"
  by code_simp

text \<open>
  Claim C10. A ring event of another user whose \<^verbatim>\<open>createdAt\<close> is null when it is
  observed is never treated as stale: whatever the time of observation, the alert is
  shown (or the fallback notice emitted), the notice that a ring was received is
  emitted, and the event is deleted.
\<close>

theorem ring_without_createdAt_alerts:
  assumes "ring_sender d = Some sndr" and "sndr \<noteq> []" and "sndr \<noteq> currentUser"
    and "toJsDate (ring_createdAt d) = None"
  shows "(let s' = onRingChange room currentUser api (now, Added, d) s in
     ringDeletes s' = ringDeletes s @ [(room, ring_id d)]
     \<and> notifications s' = notifications s @ (if api = PermissionGranted then [ringAlertText] else [])
     \<and> terminalLines s' = terminalLines s @
          (if api = PermissionGranted then [] else [fallbackNotice sndr]) @ [receivedNotice sndr])"
  using assms
  by (simp add: onRingChange_def deleteRing_def appendTerminalLine_def ringNotify_def
        fallbackNotice_def receivedNotice_def Let_def)

theorem ring_without_createdAt_alerts_witness:
  "ring_sender pendingRing = Some ''alice'' \<and> ''alice'' \<noteq> [] \<and> ''alice'' \<noteq> ''bob''
   \<and> toJsDate (ring_createdAt pendingRing) = None
   \<and> ringDeletes (onRingChange ''r'' ''bob'' PermissionGranted (99999999, Added, pendingRing) bobApp)
       = ringDeletes bobApp @ [(''r'', ''ring-2'')]
   \<and> notifications (onRingChange ''r'' ''bob'' PermissionGranted (99999999, Added, pendingRing) bobApp)
       = notifications bobApp @ [ringAlertText]
   \<and> terminalLines (onRingChange ''r'' ''bob'' PermissionGranted (99999999, Added, pendingRing) bobApp)
       = terminalLines bobApp @ [receivedNotice ''alice'']"
proof -
  have h1: "ring_sender pendingRing = Some ''alice''" by (simp add: pendingRing_def)
  have h2: "''alice'' \<noteq> []" by simp
  have h3: "''alice'' \<noteq> ''bob''" by simp
  have h4: "toJsDate (ring_createdAt pendingRing) = None" by (simp add: pendingRing_def)
  have i: "ring_id pendingRing = ''ring-2''" by (simp add: pendingRing_def)
  show ?thesis
    using ring_without_createdAt_alerts[OF h1 h2 h3 h4, of "''r''" PermissionGranted 99999999 bobApp]
      h1 h4
    by (simp add: i Let_def)
qed

section \<open>Properties of the idle poll\<close>

lemma login_unsubscribe [simp]: "login (unsubscribe u s) = login s"
  "panic (unsubscribe u s) = panic s" "chatFileId (unsubscribe u s) = chatFileId s"
  by (simp_all add: unsubscribe_def)

lemma attachAll_session [simp]:
  "login (attachAll r u n s) = login s" "panic (attachAll r u n s) = panic s"
  by (simp_all add: attachAll_def subscribeToRings_def subscribeToPresence_def subscribeToMessages_def
       onSnapshot_def ensureChatFile_def Let_def split: option.splits)

lemma ringsFold_session [simp]:
  "login (foldl (\<lambda>st c. onRingChange r u api c st) s cs) = login s"
  "panic (foldl (\<lambda>st c. onRingChange r u api c st) s cs) = panic s"
  "chatFileId (foldl (\<lambda>st c. onRingChange r u api c st) s cs) = chatFileId s"
  by (induction cs arbitrary: s)
     (simp_all add: onRingChange_def deleteRing_def appendTerminalLine_def ringNotify_def split: prod.splits)

lemma presenceFold_session [simp]:
  "login (foldl (\<lambda>st d. onPresenceDoc u now prev d st) s ds) = login s"
  "panic (foldl (\<lambda>st d. onPresenceDoc u now prev d st) s ds) = panic s"
  "chatFileId (foldl (\<lambda>st d. onPresenceDoc u now prev d st) s ds) = chatFileId s"
  by (induction ds arbitrary: s) (simp_all add: onPresenceDoc_def appendTerminalLine_def Let_def)

lemma sessionInv_handle: "sessionInv s \<Longrightarrow> sessionInv (handle e s)"
proof (cases e)
  case (CmdLogin rest newId)
  assume "sessionInv s" then show ?thesis
    by (auto simp: CmdLogin cmd_login_def Let_def sessionInv_def appendTerminalLine_def storeIdentity_def split: list.splits)
next
  case (AutoLogin newId)
  assume "sessionInv s" then show ?thesis
    by (auto simp: AutoLogin autoLogin_def sessionInv_def appendTerminalLine_def readIdentity_def split: option.splits prod.splits)
next
  case CmdLogout
  assume "sessionInv s" then show ?thesis
    by (simp add: CmdLogout cmd_logout_def Let_def sessionInv_def appendTerminalLine_def removeIdentity_def split: option.splits)
next
  case (MessagesSnapshot j snap)
  assume "sessionInv s" then show ?thesis
    by (simp add: MessagesSnapshot deliverMessages_def messagesCallback_def Let_def sessionInv_def)
next
  case (SendChat body t r)
  assume "sessionInv s" then show ?thesis
    by (simp add: SendChat handleSendChat_def sendMessage_def Let_def sessionInv_def appendTerminalLine_def split: option.splits prod.splits AddResult.splits Settled.splits)
next
  case (PresenceSnapshot j now ds)
  assume "sessionInv s" then show ?thesis
    by (simp add: PresenceSnapshot deliverPresence_def presenceCallback_def sessionInv_def)
next
  case (RingsSnapshot j api cs)
  assume "sessionInv s" then show ?thesis
    by (simp add: RingsSnapshot deliverRings_def ringsCallback_def sessionInv_def)
qed (auto simp: sessionInv_def cmd_ncp_run_def cmd_hide_chat_def clear_local_def hideChatAndSwitch_def
      markActivity_def visHandler_def pollTick_def appendTerminalLine_def split: option.splits prod.splits)

lemma sessionInv_step: "sessionInv s \<Longrightarrow> sessionInv (step e s)"
  using sessionInv_handle[of s e] by (simp add: step_def panicFocusEffect_def sessionInv_def)

lemma sessionInv_run: "sessionInv s \<Longrightarrow> sessionInv (run es s)"
  unfolding run_def by (induction es arbitrary: s) (simp_all add: sessionInv_step)

lemma sessionInv_initial: "sessionInv (initialState ls ident lines0 t0)"
  by (simp add: sessionInv_def initialState_def)

lemma step_PollTick:
  "loggedIn (login s) \<Longrightarrow> truthy (chatFileId s) \<Longrightarrow>
   panic (step (PollTick files now) s) = (panic s \<or> pollDue now s)
   \<and> login (step (PollTick files now) s) = login s
   \<and> chatFileId (step (PollTick files now) s) = chatFileId s
   \<and> lastActivity (step (PollTick files now) s) = lastActivity s
   \<and> lastHidden (step (PollTick files now) s) = lastHidden s"
  by (auto simp: step_def panicFocusEffect_def pollTick_def pollDue_def hideChatAndSwitch_def)

lemma pollDue_cong:
  "lastActivity s' = lastActivity s \<Longrightarrow> lastHidden s' = lastHidden s \<Longrightarrow> pollDue now s' = pollDue now s"
  by (simp add: pollDue_def idleTooLong_def hiddenTooLong_def)

lemma run_pollEvents:
  "loggedIn (login s) \<Longrightarrow> truthy (chatFileId s) \<Longrightarrow>
   panic (run (pollEvents ticks) s) = (panic s \<or> (\<exists>(files, now)\<in>set ticks. pollDue now s))"
proof (induction ticks arbitrary: s)
  case Nil
  then show ?case by (simp add: run_def pollEvents_def)
next
  case (Cons t ticks)
  obtain files now where t: "t = (files, now)" by (cases t)
  let ?s1 = "step (PollTick files now) s"
  note st = step_PollTick[OF Cons.prems, of files now]
  have "panic (run (pollEvents ticks) ?s1) = (panic ?s1 \<or> (\<exists>(files, now)\<in>set ticks. pollDue now ?s1))"
    using Cons.prems st by (intro Cons.IH) simp_all
  moreover have "\<And>n. pollDue n ?s1 = pollDue n s" using st by (intro pollDue_cong) simp_all
  ultimately show ?case using st by (auto simp: run_def pollEvents_def t)
qed


text \<open>
  Claim C6, as amended. In a state the application can reach in which a chat file exists
  and panic is not set, let the last activity be at time \<open>T\<close> and let only poll ticks
  follow. Panic is set at the first tick at which \<open>T + 5\<close> minutes have passed or the
  tab has been continuously hidden for 5 minutes, and at no earlier tick. So with the tab
  visible, panic is set at the first tick at or after \<open>T + 5\<close> minutes and never before;
  with the tab hidden since \<open>H\<close>, it is set no later than the first tick at or after
  \<open>H + 5\<close> minutes, and earlier only through the idle condition.
\<close>

theorem idle_poll_panic:
  assumes "s = run es (initialState ls ident lines0 t0)"
    and "truthy (chatFileId s)" and "\<not> panic s"
  shows "panic (run (pollEvents ticks) s)
           = (\<exists>(files, now)\<in>set ticks.
                 lastActivity s + 300000 \<le> now \<or> (\<exists>h. lastHidden s = Some h \<and> h + 300000 \<le> now))
         \<and> (lastHidden s = None \<longrightarrow>
               panic (run (pollEvents ticks) s)
                 = (\<exists>(files, now)\<in>set ticks. lastActivity s + 300000 \<le> now))
         \<and> (\<forall>h. lastHidden s = Some h \<and> (\<exists>(files, now)\<in>set ticks. h + 300000 \<le> now) \<longrightarrow>
               panic (run (pollEvents ticks) s))"
proof -
  have "sessionInv s" unfolding assms(1) by (intro sessionInv_run sessionInv_initial)
  then have l: "loggedIn (login s)" using assms(2,3) by (simp add: sessionInv_def)
  have "\<And>now. pollDue now s =
          (lastActivity s + 300000 \<le> now \<or> (\<exists>h. lastHidden s = Some h \<and> h + 300000 \<le> now))"
    by (auto simp: pollDue_def idleTooLong_def hiddenTooLong_def IDLE_MS_def split: option.splits)
  then have main: "panic (run (pollEvents ticks) s)
           = (\<exists>(files, now)\<in>set ticks.
                 lastActivity s + 300000 \<le> now \<or> (\<exists>h. lastHidden s = Some h \<and> h + 300000 \<le> now))"
    using run_pollEvents[OF l assms(2), of ticks] assms(3) by simp
  show ?thesis
  proof (intro conjI impI allI)
    show "panic (run (pollEvents ticks) s)
           = (\<exists>(files, now)\<in>set ticks.
                 lastActivity s + 300000 \<le> now \<or> (\<exists>h. lastHidden s = Some h \<and> h + 300000 \<le> now))"
      by (rule main)
  next
    assume "lastHidden s = None"
    then show "panic (run (pollEvents ticks) s)
                 = (\<exists>(files, now)\<in>set ticks. lastActivity s + 300000 \<le> now)"
      by (simp add: main)
  next
    fix h assume "lastHidden s = Some h \<and> (\<exists>(files, now)\<in>set ticks. h + 300000 \<le> now)"
    then show "panic (run (pollEvents ticks) s)"
      unfolding main by auto
  qed
qed

theorem idle_poll_panic_witness:
  "bobApp = run [CmdLogin [''r'', ''bob''] ''chat-1''] (initialState emptyStorage None [] 0)
   \<and> truthy (chatFileId bobApp) \<and> \<not> panic bobApp
   \<and> lastActivity bobApp = 0 \<and> lastHidden bobApp = None
   \<and> \<not> panic (run (pollEvents [([], 30000), ([], 270000), ([], 299999)]) bobApp)
   \<and> panic (run (pollEvents [([], 30000), ([], 270000), ([], 299999), ([], 300000)]) bobApp)"
proof -
  have r: "bobApp = run [CmdLogin [''r'', ''bob''] ''chat-1''] (initialState emptyStorage None [] 0)"
    by (simp add: bobApp_def freshApp_def run_def)
  have c: "truthy (chatFileId bobApp)" by code_simp
  have p: "\<not> panic bobApp" by code_simp
  have a: "lastActivity bobApp = 0" by code_simp
  have h: "lastHidden bobApp = None" by code_simp
  show ?thesis
    using idle_poll_panic[OF r c p, of "[([], 30000), ([], 270000), ([], 299999)]"]
          idle_poll_panic[OF r c p, of "[([], 30000), ([], 270000), ([], 299999), ([], 300000)]"]
          r c p
    by (simp add: a h)
qed

text \<open>
  The claim as stated fails when the other of the two conditions is met first. With the
  last activity at time 0 and the tab hidden since time 60000, the tick at time 300000
  sets panic, before 5 minutes of hidden time; with the tab hidden since time 0 and an
  activity at time 240000, the tick at time 300000 sets panic, before 5 minutes without
  activity.
\<close>

theorem panic_before_five_minutes_of_one_trigger:
  "truthy (chatFileId hiddenApp) \<and> \<not> panic hiddenApp
   \<and> lastActivity hiddenApp = 0 \<and> lastHidden hiddenApp = Some 60000
   \<and> 300000 < (60000 + 300000 :: int)
   \<and> panic (run (pollEvents [([], 300000)]) hiddenApp)
   \<and> truthy (chatFileId busyHiddenApp) \<and> \<not> panic busyHiddenApp
   \<and> lastActivity busyHiddenApp = 240000 \<and> lastHidden busyHiddenApp = Some 0
   \<and> 300000 < (240000 + 300000 :: int)
   \<and> panic (run (pollEvents [([], 300000)]) busyHiddenApp)"
  by code_simp

section \<open>Properties of the subscriptions\<close>

lemma handleOf_cong: "unsubscribeMessages s' = unsubscribeMessages s \<Longrightarrow> unsubscribePresence s' = unsubscribePresence s
      \<Longrightarrow> unsubscribeRings s' = unsubscribeRings s \<Longrightarrow> handleOf k s' = handleOf k s"
  by (cases k) simp_all

lemma handlesValid_sameSubs: assumes "sameSubs s' s" "handlesValid s" shows "handlesValid s'"
proof -
  have len: "length (listeners s') = length (listeners s)"
    using assms(1) unfolding sameSubs_def by (metis length_map)
  have lv: "\<And>i. i < length (listeners s) \<Longrightarrow> live (listeners s' ! i) = live (listeners s ! i)"
    using assms(1) len unfolding sameSubs_def by (metis nth_map)
  have kd: "\<And>i. i < length (listeners s) \<Longrightarrow> l_kind (listeners s' ! i) = l_kind (listeners s ! i)"
    using assms(1) len unfolding sameSubs_def by (metis nth_map)
  have h: "\<And>k. handleOf k s' = handleOf k s"
    using assms(1) unfolding sameSubs_def by (intro handleOf_cong) simp_all
  show ?thesis using assms(2) unfolding handlesValid_def by (simp add: len lv kd h)
qed

lemma sameSubs_refl [simp]: "sameSubs s s" by (simp add: sameSubs_def)
lemma sameSubs_trans: "sameSubs s2 s1 \<Longrightarrow> sameSubs s1 s \<Longrightarrow> sameSubs s2 s"
  by (simp add: sameSubs_def)

lemma sameSubs_simps [simp]:
  "sameSubs (appendTerminalLine t c s) s0 = sameSubs s s0"
  "sameSubs (storeIdentity r u s) s0 = sameSubs s s0"
  "sameSubs (removeIdentity s) s0 = sameSubs s s0"
  "sameSubs (ensureChatFile n s) s0 = sameSubs s s0"
  "sameSubs (hideChatAndSwitch fs s) s0 = sameSubs s s0"
  "sameSubs (panicFocusEffect s) s0 = sameSubs s s0"
  "sameSubs (markActivity now s) s0 = sameSubs s s0"
  "sameSubs (visHandler v now s) s0 = sameSubs s s0"
  "sameSubs (s\<lparr>login := l\<rparr>) s0 = sameSubs s s0"
  "sameSubs (s\<lparr>panic := p\<rparr>) s0 = sameSubs s s0"
  "sameSubs (s\<lparr>activeFileId := a\<rparr>) s0 = sameSubs s s0"
  "sameSubs (s\<lparr>messages := ms\<rparr>) s0 = sameSubs s s0"
  "sameSubs (s\<lparr>localStorage := lst\<rparr>) s0 = sameSubs s s0"
  "sameSubs (s\<lparr>remoteMessages := rm\<rparr>) s0 = sameSubs s s0"
  by (simp_all add: sameSubs_def appendTerminalLine_def storeIdentity_def removeIdentity_def
        ensureChatFile_def hideChatAndSwitch_def panicFocusEffect_def markActivity_def visHandler_def)

lemma sameSubs_onRingChange [simp]: "sameSubs (onRingChange r u api c s) s0 = sameSubs s s0"
  by (simp add: sameSubs_def onRingChange_def deleteRing_def appendTerminalLine_def ringNotify_def split: prod.splits)

lemma sameSubs_ringsFold [simp]:
  "sameSubs (foldl (\<lambda>st c. onRingChange r u api c st) s cs) s0 = sameSubs s s0"
  by (induction cs arbitrary: s) simp_all

lemma sameSubs_onPresenceDoc [simp]: "sameSubs (onPresenceDoc u now prev d s) s0 = sameSubs s s0"
  by (simp add: sameSubs_def onPresenceDoc_def appendTerminalLine_def Let_def)

lemma sameSubs_presenceFold [simp]:
  "sameSubs (foldl (\<lambda>st d. onPresenceDoc u now prev d st) s ds) s0 = sameSubs s s0"
  by (induction ds arbitrary: s) simp_all

lemma map_update_same: "(map f xs)[i := f (xs ! i)] = map f xs"
  by (metis list_update_id map_update)

lemma sameSubs_messagesCallback [simp]: "sameSubs (messagesCallback i snap s) s"
  by (simp add: sameSubs_def messagesCallback_def Let_def map_update map_update_same)


lemma detach_simps [simp]:
  "length (detach h ls) = length ls"
  "i < length ls \<Longrightarrow> l_kind (detach h ls ! i) = l_kind (ls ! i)"
  "i < length ls \<Longrightarrow> live (detach h ls ! i) = (live (ls ! i) \<and> h \<noteq> Some i)"
  by (auto simp: detach_def nth_list_update split: option.splits)

lemma listeners_unsubscribe_detach: "listeners (unsubscribe u s) = detach (Some u) (listeners s)"
  by (simp add: unsubscribe_def detach_def)

lemma subscribeToMessages_subs:
  "listeners (subscribeToMessages room user s)
     = detach (unsubscribeMessages s) (listeners s) @ [freshListener MessagesStream room user]"
  "unsubscribeMessages (subscribeToMessages room user s) = Some (length (listeners s))"
  "unsubscribePresence (subscribeToMessages room user s) = unsubscribePresence s"
  "unsubscribeRings (subscribeToMessages room user s) = unsubscribeRings s"
  by (simp_all add: subscribeToMessages_def onSnapshot_def unsubscribe_def detach_def freshListener_def
        Let_def split: option.splits)

lemma subscribeToPresence_subs:
  "listeners (subscribeToPresence room user s)
     = detach (unsubscribePresence s) (listeners s) @ [freshListener PresenceStream room user]"
  "unsubscribePresence (subscribeToPresence room user s) = Some (length (listeners s))"
  "unsubscribeMessages (subscribeToPresence room user s) = unsubscribeMessages s"
  "unsubscribeRings (subscribeToPresence room user s) = unsubscribeRings s"
  by (simp_all add: subscribeToPresence_def onSnapshot_def unsubscribe_def detach_def freshListener_def
        Let_def split: option.splits)

lemma subscribeToRings_subs:
  "listeners (subscribeToRings room user s)
     = detach (unsubscribeRings s) (listeners s) @ [freshListener RingsStream room user]"
  "unsubscribeRings (subscribeToRings room user s) = Some (length (listeners s))"
  "unsubscribeMessages (subscribeToRings room user s) = unsubscribeMessages s"
  "unsubscribePresence (subscribeToRings room user s) = unsubscribePresence s"
  by (simp_all add: subscribeToRings_def onSnapshot_def unsubscribe_def detach_def freshListener_def
        Let_def split: option.splits)

lemma attach_valid:
  assumes v: "handlesValid s"
    and ls: "listeners s' = detach (handleOf k s) (listeners s) @ [freshListener k room user]"
    and hk: "handleOf k s' = Some (length (listeners s))"
    and ho: "\<And>k'. k' \<noteq> k \<Longrightarrow> handleOf k' s' = handleOf k' s"
  shows "handlesValid s'" and "liveOf k s' = [freshListener k room user]"
proof -
  let ?n = "length (listeners s)"
  have old: "\<And>i. i < ?n \<Longrightarrow> live (listeners s' ! i) \<Longrightarrow> l_kind (listeners s ! i) \<noteq> k"
  proof
    fix i assume i: "i < ?n" and l: "live (listeners s' ! i)" and kk: "l_kind (listeners s ! i) = k"
    from l i have "live (listeners s ! i)" and ne: "handleOf k s \<noteq> Some i"
      by (simp_all add: ls nth_append)
    with v i kk have "handleOf k s = Some i" unfolding handlesValid_def by blast
    with ne show False by simp
  qed
  show "handlesValid s'"
    unfolding handlesValid_def
  proof (intro conjI allI impI)
    fix i assume i: "i < length (listeners s')" and l: "live (listeners s' ! i)"
    show "handleOf (l_kind (listeners s' ! i)) s' = Some i"
    proof (cases "i < ?n")
      case True
      have kd: "l_kind (listeners s' ! i) = l_kind (listeners s ! i)" using True by (simp add: ls nth_append)
      have "live (listeners s ! i)" using l True by (simp add: ls nth_append)
      then have "handleOf (l_kind (listeners s ! i)) s = Some i" using v True unfolding handlesValid_def by blast
      moreover have "l_kind (listeners s ! i) \<noteq> k" using old[OF True l] .
      ultimately show ?thesis by (simp add: kd ho)
    next
      case False
      then have "i = ?n" using i by (simp add: ls)
      then show ?thesis by (simp add: ls nth_append freshListener_def hk)
    qed
  next
    fix k' u assume h: "handleOf k' s' = Some u"
    show "u < length (listeners s')"
    proof (cases "k' = k")
      case True then show ?thesis using h hk by (simp add: ls)
    next
      case False
      then have "handleOf k' s = Some u" using h ho by simp
      then have "u < ?n" using v unfolding handlesValid_def by blast
      then show ?thesis by (simp add: ls)
    qed
  qed
  have "filter (\<lambda>l. live l \<and> l_kind l = k) (detach (handleOf k s) (listeners s)) = []"
  proof -
    have "\<And>x. x \<in> set (detach (handleOf k s) (listeners s)) \<Longrightarrow> \<not> (live x \<and> l_kind x = k)"
    proof
      fix x assume "x \<in> set (detach (handleOf k s) (listeners s))" and p: "live x \<and> l_kind x = k"
      then obtain i where i: "i < ?n" and x: "x = detach (handleOf k s) (listeners s) ! i"
        by (auto simp: in_set_conv_nth)
      have "listeners s' ! i = x" using i x by (simp add: ls nth_append)
      with p old[OF i] i x show False by simp
    qed
    then show ?thesis by (simp add: filter_empty_conv)
  qed
  then show "liveOf k s' = [freshListener k room user]"
    by (simp add: liveOf_def ls freshListener_def)
qed

lemma handlesValid_subscribeToMessages:
  assumes "handlesValid s"
  shows "handlesValid (subscribeToMessages room user s)"
    and "liveOf MessagesStream (subscribeToMessages room user s) = [freshListener MessagesStream room user]"
proof -
  have o: "\<And>k'. k' \<noteq> MessagesStream \<Longrightarrow> handleOf k' (subscribeToMessages room user s) = handleOf k' s"
    subgoal for k' by (cases k') (simp_all add: subscribeToMessages_subs) done
  show "handlesValid (subscribeToMessages room user s)"
    by (rule attach_valid(1)[OF assms, of _ MessagesStream room user]) (simp_all add: subscribeToMessages_subs o)
  show "liveOf MessagesStream (subscribeToMessages room user s) = [freshListener MessagesStream room user]"
    by (rule attach_valid(2)[OF assms]) (simp_all add: subscribeToMessages_subs o)
qed

lemma handlesValid_subscribeToPresence:
  assumes "handlesValid s"
  shows "handlesValid (subscribeToPresence room user s)"
    and "liveOf PresenceStream (subscribeToPresence room user s) = [freshListener PresenceStream room user]"
proof -
  have o: "\<And>k'. k' \<noteq> PresenceStream \<Longrightarrow> handleOf k' (subscribeToPresence room user s) = handleOf k' s"
    subgoal for k' by (cases k') (simp_all add: subscribeToPresence_subs) done
  show "handlesValid (subscribeToPresence room user s)"
    by (rule attach_valid(1)[OF assms, of _ PresenceStream room user]) (simp_all add: subscribeToPresence_subs o)
  show "liveOf PresenceStream (subscribeToPresence room user s) = [freshListener PresenceStream room user]"
    by (rule attach_valid(2)[OF assms]) (simp_all add: subscribeToPresence_subs o)
qed

lemma handlesValid_subscribeToRings:
  assumes "handlesValid s"
  shows "handlesValid (subscribeToRings room user s)"
    and "liveOf RingsStream (subscribeToRings room user s) = [freshListener RingsStream room user]"
proof -
  have o: "\<And>k'. k' \<noteq> RingsStream \<Longrightarrow> handleOf k' (subscribeToRings room user s) = handleOf k' s"
    subgoal for k' by (cases k') (simp_all add: subscribeToRings_subs) done
  show "handlesValid (subscribeToRings room user s)"
    by (rule attach_valid(1)[OF assms, of _ RingsStream room user]) (simp_all add: subscribeToRings_subs o)
  show "liveOf RingsStream (subscribeToRings room user s) = [freshListener RingsStream room user]"
    by (rule attach_valid(2)[OF assms]) (simp_all add: subscribeToRings_subs o)
qed

lemma handlesValid_attachAll: "handlesValid s \<Longrightarrow> sameSubs s s0 \<Longrightarrow> handlesValid s0 \<Longrightarrow> handlesValid (attachAll room user n s)"
  unfolding attachAll_def
  by (intro handlesValid_subscribeToRings(1) handlesValid_subscribeToPresence(1)
        handlesValid_subscribeToMessages(1) handlesValid_sameSubs[of "ensureChatFile n s" s]) simp_all


lemma handlesValid_detach:
  assumes "handlesValid s" and "listeners s' = detach h (listeners s)"
    and "unsubscribeMessages s' = unsubscribeMessages s" and "unsubscribePresence s' = unsubscribePresence s"
    and "unsubscribeRings s' = unsubscribeRings s"
  shows "handlesValid s'"
proof -
  have h: "\<And>k. handleOf k s' = handleOf k s" using assms(3-5) by (intro handleOf_cong)
  show ?thesis using assms(1) unfolding handlesValid_def by (simp add: assms(2) h)
qed

lemma handlesValid_unsubscribe: "handlesValid s \<Longrightarrow> handlesValid (unsubscribe u s)"
  by (erule handlesValid_detach[where h = "Some u"]) (simp_all add: unsubscribe_def detach_def)

lemma unsubscribe_session_update:
  "unsubscribe u (s\<lparr>login := l, panic := p\<rparr>) = (unsubscribe u s)\<lparr>login := l, panic := p\<rparr>"
  by (simp add: unsubscribe_def)

lemma sameSubs_sym: "sameSubs s' s \<Longrightarrow> sameSubs s s'"
  by (simp add: sameSubs_def)

lemma handlesValid_cong: "sameSubs s' s \<Longrightarrow> handlesValid s' = handlesValid s"
  using handlesValid_sameSubs sameSubs_sym by blast

lemma handlesValid_session_update [simp]:
  "handlesValid (s\<lparr>login := l, panic := p\<rparr>) = handlesValid s"
  "handlesValid (s\<lparr>login := l\<rparr>) = handlesValid s"
  "handlesValid (appendTerminalLine t c s) = handlesValid s"
  "handlesValid (removeIdentity s) = handlesValid s"
  "handlesValid (storeIdentity r u s) = handlesValid s"
  by (rule handlesValid_cong, simp add: sameSubs_def appendTerminalLine_def removeIdentity_def storeIdentity_def)+

lemma handles_unsubscribe [simp]:
  "unsubscribeMessages (unsubscribe u s) = unsubscribeMessages s"
  "unsubscribePresence (unsubscribe u s) = unsubscribePresence s"
  "unsubscribeRings (unsubscribe u s) = unsubscribeRings s"
  by (simp_all add: unsubscribe_def)

lemma handlesValid_logout: "handlesValid s \<Longrightarrow> handlesValid (cmd_logout s)"
  by (simp add: cmd_logout_def Let_def handlesValid_unsubscribe split: option.splits)

lemma handlesValid_handle: "handlesValid s \<Longrightarrow> handlesValid (handle e s)"
proof (cases e)
  case (CmdLogin rest newId)
  assume "handlesValid s" then show ?thesis
    by (simp add: CmdLogin cmd_login_def Let_def handlesValid_attachAll[of _ s] split: list.splits)
next
  case (AutoLogin newId)
  assume "handlesValid s" then show ?thesis
    by (simp add: AutoLogin autoLogin_def handlesValid_attachAll[of _ s] split: option.splits prod.splits)
next
  case CmdLogout
  assume "handlesValid s" then show ?thesis by (simp add: CmdLogout handlesValid_logout)
next
  case (MessagesSnapshot j snap)
  assume "handlesValid s" then show ?thesis
    by (auto simp: MessagesSnapshot deliverMessages_def intro: handlesValid_sameSubs[of _ s])
next
  case (SendChat body t r)
  assume v: "handlesValid s"
  have "sameSubs (handleSendChat body t r s) s"
    by (simp add: handleSendChat_def sendMessage_def Let_def split: option.splits prod.splits AddResult.splits Settled.splits)
  from handlesValid_sameSubs[OF this v] show ?thesis by (simp only: SendChat handle.simps)
next
  case (PresenceSnapshot j now ds)
  assume "handlesValid s" then show ?thesis
    by (auto simp: PresenceSnapshot deliverPresence_def presenceCallback_def intro: handlesValid_sameSubs[of _ s])
next
  case (RingsSnapshot j api cs)
  assume "handlesValid s" then show ?thesis
    by (auto simp: RingsSnapshot deliverRings_def ringsCallback_def intro: handlesValid_sameSubs[of _ s])
next
  case CmdNcpRun
  assume v: "handlesValid s"
  have "sameSubs (cmd_ncp_run s) s" by (simp add: cmd_ncp_run_def sameSubs_def appendTerminalLine_def)
  from handlesValid_sameSubs[OF this v] show ?thesis by (simp only: CmdNcpRun handle.simps)
next
  case (CmdHideChat fs)
  assume v: "handlesValid s"
  have "sameSubs (cmd_hide_chat fs s) s" by (simp add: cmd_hide_chat_def)
  from handlesValid_sameSubs[OF this v] show ?thesis by (simp only: CmdHideChat handle.simps)
next
  case (KeyChord fs)
  assume v: "handlesValid s"
  have "sameSubs (hideChatAndSwitch fs s) s" by simp
  from handlesValid_sameSubs[OF this v] show ?thesis by (simp only: KeyChord handle.simps)
next
  case (CmdClearLocal now)
  assume v: "handlesValid s"
  have "sameSubs (clear_local now s) s" by (simp add: clear_local_def sameSubs_def appendTerminalLine_def split: option.splits prod.splits)
  from handlesValid_sameSubs[OF this v] show ?thesis by (simp only: CmdClearLocal handle.simps)
next
  case (Activity now)
  assume v: "handlesValid s"
  have "sameSubs (markActivity now s) s" by simp
  from handlesValid_sameSubs[OF this v] show ?thesis by (simp only: Activity handle.simps)
next
  case (Visibility vis now)
  assume v: "handlesValid s"
  have "sameSubs (visHandler vis now s) s" by simp
  from handlesValid_sameSubs[OF this v] show ?thesis by (simp only: Visibility handle.simps)
next
  case (PollTick fs now)
  assume v: "handlesValid s"
  have "sameSubs (pollTick fs now s) s" by (simp add: pollTick_def)
  from handlesValid_sameSubs[OF this v] show ?thesis by (simp only: PollTick handle.simps)
qed

lemma handlesValid_step: "handlesValid s \<Longrightarrow> handlesValid (step e s)"
proof -
  assume "handlesValid s"
  then have "handlesValid (handle e s)" by (rule handlesValid_handle)
  moreover have "sameSubs (panicFocusEffect (handle e s)) (handle e s)" by simp
  ultimately show ?thesis unfolding step_def using handlesValid_sameSubs by blast
qed

lemma handlesValid_run: "handlesValid s \<Longrightarrow> handlesValid (run es s)"
  unfolding run_def by (induction es arbitrary: s) (simp_all add: handlesValid_step)

lemma handlesValid_initial: "handlesValid (initialState ls ident lines0 t0)"
proof -
  have "\<And>k. handleOf k (initialState ls ident lines0 t0) = None"
    subgoal for k by (cases k) (simp_all add: initialState_def) done
  then show ?thesis by (simp add: handlesValid_def initialState_def)
qed

lemma filter_at_most_one:
  assumes "\<And>i j. i < length xs \<Longrightarrow> j < length xs \<Longrightarrow> P (xs ! i) \<Longrightarrow> P (xs ! j) \<Longrightarrow> i = j"
  shows "length (filter P xs) \<le> 1"
  using assms
proof (induction xs)
  case Nil
  then show ?case by simp
next
  case (Cons x xs)
  show ?case
  proof (cases "P x")
    case True
    have "filter P xs = []"
    proof -
      have "\<And>y. y \<in> set xs \<Longrightarrow> \<not> P y"
      proof
        fix y assume "y \<in> set xs" and py: "P y"
        then obtain i where i: "i < length xs" "xs ! i = y" by (auto simp: in_set_conv_nth)
        from Cons.prems[of 0 "Suc i"] True py i show False by simp
      qed
      then show ?thesis by (simp add: filter_empty_conv)
    qed
    with True show ?thesis by simp
  next
    case False
    have "length (filter P xs) \<le> 1"
    proof (rule Cons.IH)
      fix i j assume "i < length xs" "j < length xs" "P (xs ! i)" "P (xs ! j)"
      with Cons.prems[of "Suc i" "Suc j"] show "i = j" by simp
    qed
    with False show ?thesis by simp
  qed
qed

lemma handlesValid_one_live: "handlesValid s \<Longrightarrow> length (liveOf k s) \<le> 1"
  unfolding liveOf_def
proof (rule filter_at_most_one)
  fix i j
  assume v: "handlesValid s" and i: "i < length (listeners s)" and j: "j < length (listeners s)"
    and pi: "live (listeners s ! i) \<and> l_kind (listeners s ! i) = k"
    and pj: "live (listeners s ! j) \<and> l_kind (listeners s ! j) = k"
  from v i pi have "handleOf k s = Some i" unfolding handlesValid_def by blast
  moreover from v j pj have "handleOf k s = Some j" unfolding handlesValid_def by blast
  ultimately show "i = j" by simp
qed

lemma superseded_not_live:
  assumes "handlesValid s" and "handleOf k s = Some u"
    and ls: "listeners s' = detach (handleOf k s) (listeners s) @ [freshListener k room user]"
  shows "u < length (listeners s') \<and> \<not> live (listeners s' ! u)"
proof -
  have "u < length (listeners s)" using assms(1,2) unfolding handlesValid_def by blast
  then show ?thesis by (simp add: ls nth_append assms(2))
qed


lemma detached_sameSubs: assumes "sameSubs s' s" shows "detached u s' = detached u s"
proof -
  have len: "length (listeners s') = length (listeners s)"
    using assms unfolding sameSubs_def by (metis length_map)
  have "u < length (listeners s) \<Longrightarrow> live (listeners s' ! u) = live (listeners s ! u)"
    using assms len unfolding sameSubs_def by (metis nth_map)
  then show ?thesis by (auto simp: detached_def len)
qed

lemma detached_unsubscribe: "detached u s \<Longrightarrow> detached u (unsubscribe v s)"
  by (auto simp: detached_def listeners_unsubscribe_detach)

lemma detached_subscribe:
  assumes "detached u s"
  shows "detached u (subscribeToMessages room user s)"
    and "detached u (subscribeToPresence room user s)"
    and "detached u (subscribeToRings room user s)"
  using assms
  by (simp_all add: detached_def subscribeToMessages_subs subscribeToPresence_subs
        subscribeToRings_subs nth_append)

lemma detached_attachAll:
  assumes "detached u s" shows "detached u (attachAll room user n s)"
proof -
  have "sameSubs (ensureChatFile n s) s" by simp
  from detached_sameSubs[OF this] assms have "detached u (ensureChatFile n s)" by simp
  then show ?thesis unfolding attachAll_def by (intro detached_subscribe)
qed

lemma detached_handle: assumes d: "detached u s" shows "detached u (handle e s)"
proof (cases e)
  case (CmdLogin rest newId)
  have a: "detached u (attachAll r v newId (storeIdentity r v (appendTerminalLine t Green
             (s\<lparr>login := \<lparr>loggedIn = True, roomId = Some r, userName = Some v\<rparr>\<rparr>))))" for r v t
  proof (rule detached_attachAll)
    have "sameSubs (storeIdentity r v (appendTerminalLine t Green
             (s\<lparr>login := \<lparr>loggedIn = True, roomId = Some r, userName = Some v\<rparr>\<rparr>))) s" by simp
    from detached_sameSubs[OF this] d
    show "detached u (storeIdentity r v (appendTerminalLine t Green
             (s\<lparr>login := \<lparr>loggedIn = True, roomId = Some r, userName = Some v\<rparr>\<rparr>)))" by simp
  qed
  have b: "detached u (appendTerminalLine t c s)" for t c
  proof -
    have "sameSubs (appendTerminalLine t c s) s" by simp
    from detached_sameSubs[OF this] d show ?thesis by simp
  qed
  show ?thesis by (simp add: CmdLogin cmd_login_def Let_def a b d split: list.splits)
next
  case (AutoLogin newId)
  have a: "detached u (attachAll r v newId (appendTerminalLine t Green
             (s\<lparr>login := \<lparr>loggedIn = True, roomId = Some r, userName = Some v\<rparr>\<rparr>)))" for r v t
  proof (rule detached_attachAll)
    have "sameSubs (appendTerminalLine t Green
             (s\<lparr>login := \<lparr>loggedIn = True, roomId = Some r, userName = Some v\<rparr>\<rparr>)) s" by simp
    from detached_sameSubs[OF this] d
    show "detached u (appendTerminalLine t Green
             (s\<lparr>login := \<lparr>loggedIn = True, roomId = Some r, userName = Some v\<rparr>\<rparr>))" by simp
  qed
  show ?thesis by (simp add: AutoLogin autoLogin_def a d split: option.splits prod.splits)
next
  case CmdLogout
  let ?s1 = "s\<lparr>login := \<lparr>loggedIn = False, roomId = None, userName = None\<rparr>, panic := True\<rparr>"
  have "sameSubs ?s1 s" by (simp add: sameSubs_def)
  from detached_sameSubs[OF this] d have 1: "detached u ?s1" by simp
  have 2: "detached u (appendTerminalLine ''logged out. chat file hidden'' Green (removeIdentity st))"
    if "detached u st" for st
  proof -
    have "sameSubs (appendTerminalLine ''logged out. chat file hidden'' Green (removeIdentity st)) st"
      by simp
    from detached_sameSubs[OF this] that show ?thesis by simp
  qed
  show ?thesis
    unfolding CmdLogout handle.simps cmd_logout_def Let_def
    by (intro 2) (auto split: option.splits intro: detached_unsubscribe 1)
next
  case (MessagesSnapshot j snap)
  have "sameSubs (deliverMessages j snap s) s" by (simp add: deliverMessages_def)
  from detached_sameSubs[OF this] d show ?thesis by (simp only: MessagesSnapshot handle.simps)
next
  case (SendChat body t r)
  have "sameSubs (handleSendChat body t r s) s"
    by (simp add: handleSendChat_def sendMessage_def Let_def split: option.splits prod.splits AddResult.splits Settled.splits)
  from detached_sameSubs[OF this] d show ?thesis by (simp only: SendChat handle.simps)
next
  case (PresenceSnapshot j now ds)
  have "sameSubs (deliverPresence j now ds s) s" by (simp add: deliverPresence_def presenceCallback_def)
  from detached_sameSubs[OF this] d show ?thesis by (simp only: PresenceSnapshot handle.simps)
next
  case (RingsSnapshot j api cs)
  have "sameSubs (deliverRings j api cs s) s" by (simp add: deliverRings_def ringsCallback_def)
  from detached_sameSubs[OF this] d show ?thesis by (simp only: RingsSnapshot handle.simps)
next
  case CmdNcpRun
  have "sameSubs (cmd_ncp_run s) s" by (simp add: cmd_ncp_run_def sameSubs_def appendTerminalLine_def)
  from detached_sameSubs[OF this] d show ?thesis by (simp only: CmdNcpRun handle.simps)
next
  case (CmdHideChat fs)
  have "sameSubs (cmd_hide_chat fs s) s" by (simp add: cmd_hide_chat_def)
  from detached_sameSubs[OF this] d show ?thesis by (simp only: CmdHideChat handle.simps)
next
  case (KeyChord fs)
  have "sameSubs (hideChatAndSwitch fs s) s" by simp
  from detached_sameSubs[OF this] d show ?thesis by (simp only: KeyChord handle.simps)
next
  case (CmdClearLocal now)
  have "sameSubs (clear_local now s) s" by (simp add: clear_local_def sameSubs_def appendTerminalLine_def split: option.splits prod.splits)
  from detached_sameSubs[OF this] d show ?thesis by (simp only: CmdClearLocal handle.simps)
next
  case (Activity now)
  have "sameSubs (markActivity now s) s" by simp
  from detached_sameSubs[OF this] d show ?thesis by (simp only: Activity handle.simps)
next
  case (Visibility vis now)
  have "sameSubs (visHandler vis now s) s" by simp
  from detached_sameSubs[OF this] d show ?thesis by (simp only: Visibility handle.simps)
next
  case (PollTick fs now)
  have "sameSubs (pollTick fs now s) s" by (simp add: pollTick_def)
  from detached_sameSubs[OF this] d show ?thesis by (simp only: PollTick handle.simps)
qed

lemma detached_step: "detached u s \<Longrightarrow> detached u (step e s)"
proof -
  assume "detached u s"
  then have "detached u (handle e s)" by (rule detached_handle)
  moreover have "sameSubs (panicFocusEffect (handle e s)) (handle e s)" by simp
  ultimately show ?thesis unfolding step_def using detached_sameSubs by blast
qed

lemma detached_run: "detached u s \<Longrightarrow> detached u (run es s)"
  unfolding run_def by (induction es arbitrary: s) (simp_all add: detached_step)

lemma detached_deliver:
  assumes "detached u s"
  shows "deliverMessages u snapshot s = s" and "deliverPresence u now docs s = s"
    and "deliverRings u api changes s = s"
  using assms by (simp_all add: detached_def deliverMessages_def deliverPresence_def deliverRings_def)

lemma superseded_detached:
  assumes "handlesValid s" and "handleOf k s = Some u"
    and "listeners s' = detach (handleOf k s) (listeners s) @ [freshListener k room user]"
  shows "detached u s'"
  using superseded_not_live[OF assms] by (simp add: detached_def)


text \<open>
  Claim C8. In every state the application can reach, each stream kind (messages,
  presence, rings) has at most one live listener. Attaching a subscription of a kind for a
  room and user leaves exactly one live listener of that kind, the new one: a previous
  live subscription of the kind has been detached. Whatever events follow, a snapshot
  addressed to the subscription that was superseded changes nothing.
\<close>

theorem one_live_subscription_per_kind:
  assumes "s = run es (initialState ls ident lines0 t0)"
  shows "(\<forall>k. length (liveOf k s) \<le> 1)
    \<and> liveOf MessagesStream (subscribeToMessages room user s)
        = [freshListener MessagesStream room user]
    \<and> liveOf PresenceStream (subscribeToPresence room user s)
        = [freshListener PresenceStream room user]
    \<and> liveOf RingsStream (subscribeToRings room user s)
        = [freshListener RingsStream room user]
    \<and> (\<forall>u. unsubscribeMessages s = Some u \<longrightarrow>
          deliverMessages u snapshot (run later (subscribeToMessages room user s))
            = run later (subscribeToMessages room user s))
    \<and> (\<forall>u. unsubscribePresence s = Some u \<longrightarrow>
          deliverPresence u now docs (run later (subscribeToPresence room user s))
            = run later (subscribeToPresence room user s))
    \<and> (\<forall>u. unsubscribeRings s = Some u \<longrightarrow>
          deliverRings u api changes (run later (subscribeToRings room user s))
            = run later (subscribeToRings room user s))"
proof -
  have v: "handlesValid s" unfolding assms by (intro handlesValid_run handlesValid_initial)
  have m: "deliverMessages u snapshot (run later (subscribeToMessages room user s))
             = run later (subscribeToMessages room user s)"
    if "unsubscribeMessages s = Some u" for u
  proof -
    have "detached u (subscribeToMessages room user s)"
      by (rule superseded_detached[OF v, of MessagesStream u _ room user])
         (simp_all add: that subscribeToMessages_subs)
    then show ?thesis by (intro detached_deliver detached_run)
  qed
  have p: "deliverPresence u now docs (run later (subscribeToPresence room user s))
             = run later (subscribeToPresence room user s)"
    if "unsubscribePresence s = Some u" for u
  proof -
    have "detached u (subscribeToPresence room user s)"
      by (rule superseded_detached[OF v, of PresenceStream u _ room user])
         (simp_all add: that subscribeToPresence_subs)
    then show ?thesis by (intro detached_deliver detached_run)
  qed
  have r: "deliverRings u api changes (run later (subscribeToRings room user s))
             = run later (subscribeToRings room user s)"
    if "unsubscribeRings s = Some u" for u
  proof -
    have "detached u (subscribeToRings room user s)"
      by (rule superseded_detached[OF v, of RingsStream u _ room user])
         (simp_all add: that subscribeToRings_subs)
    then show ?thesis by (intro detached_deliver detached_run)
  qed
  show ?thesis
    using handlesValid_one_live[OF v] handlesValid_subscribeToMessages(2)[OF v]
      handlesValid_subscribeToPresence(2)[OF v] handlesValid_subscribeToRings(2)[OF v] m p r
    by blast
qed

theorem one_live_subscription_per_kind_witness:
  "bobApp = run [CmdLogin [''r'', ''bob''] ''chat-1''] (initialState emptyStorage None [] 0)
   \<and> length (liveOf MessagesStream bobApp) \<le> 1
   \<and> liveOf MessagesStream (subscribeToMessages ''r2'' ''carol'' bobApp)
       = [freshListener MessagesStream ''r2'' ''carol'']
   \<and> unsubscribeMessages bobApp = Some 0
   \<and> deliverMessages 0 [aliceDoc]
        (run [CmdClearLocal 5] (subscribeToMessages ''r2'' ''carol'' bobApp))
       = run [CmdClearLocal 5] (subscribeToMessages ''r2'' ''carol'' bobApp)
   \<and> unsubscribeRings bobApp = Some 2
   \<and> deliverRings 2 PermissionGranted [(2000, Added, aliceRing)]
        (run [CmdClearLocal 5] (subscribeToRings ''r2'' ''carol'' bobApp))
       = run [CmdClearLocal 5] (subscribeToRings ''r2'' ''carol'' bobApp)"
proof -
  have r: "bobApp = run [CmdLogin [''r'', ''bob''] ''chat-1''] (initialState emptyStorage None [] 0)"
    by (simp add: bobApp_def freshApp_def run_def)
  have m: "unsubscribeMessages bobApp = Some 0" by code_simp
  have g: "unsubscribeRings bobApp = Some 2" by code_simp
  show ?thesis
    using one_live_subscription_per_kind[OF r, of "''r2''" "''carol''" "[aliceDoc]"
            "[CmdClearLocal 5]" 0 "[]" PermissionGranted "[(2000, Added, aliceRing)]"] r m g
    by simp
qed

section \<open>Properties of the time separators\<close>






lemma anchorBefore_0 [simp]: "anchorBefore ms 0 = None"
  by (simp add: anchorBefore_def)









end
